theory Spec2Isabelle
  imports Complex_Main "HOL-Library.Multiset"
begin

text \<open>
  The repository holds two scripts over one table of orbital parameters:
  \<^verbatim>\<open>plot_insolation.py\<close> draws insolation against age and marks the local extrema of
  eccentricity, obliquity and precession index; \<^verbatim>\<open>plot_correlation.py\<close> draws three
  scatter plots of insolation against these parameters. Both are embedded here as
  functions from the table \<^verbatim>\<open>pd.read_csv\<close> returns to the result of the run: an error,
  or what the run has computed, the data it has handed to the plotting library and the
  names of the files it has written. The parsing of the file, the change of working
  directory, the console messages and the styling of the figures are not part of the
  embedding; the library functions the scripts call on the table (pandas, NumPy, SciPy)
  are embedded as those libraries define them.
\<close>

section \<open>Strings and column headers\<close>

text \<open>
  A Python \<^verbatim>\<open>str\<close> is a sequence of Unicode code points, so a string is a list of
  code points here (the byte order mark U+FEFF and the no-break space U+00A0 are single
  characters of a header, as they are for \<^verbatim>\<open>str.replace\<close>). ASCII literals of the
  scripts are written as HOL strings and converted with \<open>py\<close>.
\<close>

type_synonym ustr = "nat list"

definition py :: "string \<Rightarrow> ustr" where
  "py s = map of_char s"

definition BOM :: nat where
  "BOM = 0xFEFF"

definition NBSP :: nat where
  "NBSP = 0xA0"

definition SPACE :: nat where
  "SPACE = 0x20"

text \<open>The code points for which \<^verbatim>\<open>str.isspace\<close> holds; \<^verbatim>\<open>str.strip()\<close> removes these.\<close>

definition isspace :: "nat \<Rightarrow> bool" where
  "isspace c \<longleftrightarrow>
     (0x9 \<le> c \<and> c \<le> 0xD) \<or> (0x1C \<le> c \<and> c \<le> 0x20) \<or> c = 0x85 \<or> c = 0xA0 \<or>
     c = 0x1680 \<or> (0x2000 \<le> c \<and> c \<le> 0x200A) \<or> c = 0x2028 \<or> c = 0x2029 \<or>
     c = 0x202F \<or> c = 0x205F \<or> c = 0x3000"

definition strip :: "ustr \<Rightarrow> ustr" where
  "strip s = rev (dropWhile isspace (rev (dropWhile isspace s)))"

text \<open>\<^verbatim>\<open>s.replace(old, new)\<close> for a pattern \<open>old\<close> of one character.\<close>

definition replace_char :: "nat \<Rightarrow> ustr \<Rightarrow> ustr \<Rightarrow> ustr" where
  "replace_char old new s = concat (map (\<lambda>c. if c = old then new else [c]) s)"

text \<open>
  \<^verbatim>\<open>
  def norm_col(x: str) -> str:
      if x is None:
          return ""
      return str(x).replace(BOM, "").replace(NBSP, " ").strip()
  \<close>
  where the source writes the two patterns as the one-character literals U+FEFF and
  U+00A0.
\<close>

definition norm_col :: "ustr option \<Rightarrow> ustr" where
  "norm_col x =
     (case x of
        None \<Rightarrow> []
      | Some s \<Rightarrow> strip (replace_char NBSP [SPACE] (replace_char BOM [] s)))"

text \<open>
  A loaded table (what \<^verbatim>\<open>pd.read_csv\<close> returns) is the list of its columns in file
  order, each a label with its series of cells: labels may repeat, so this is an
  association list and not a map. All series of a table have the same length. The cell
  type \<open>'c\<close> is whatever the parser produced (text or numbers).
\<close>

type_synonym 'c dataframe = "(ustr \<times> 'c list) list"

definition df_columns :: "'c dataframe \<Rightarrow> ustr list" where
  "df_columns df = map fst df"

text \<open>
  The insolation script, \<^verbatim>\<open>df.columns = [norm_col(c) for c in df.columns]\<close>, applied to
  the table read from the file.
\<close>

definition robust_read_table :: "'c dataframe \<Rightarrow> 'c dataframe" where
  "robust_read_table raw = map (\<lambda>(c, s). (norm_col (Some c), s)) raw"

text \<open>The correlation script, \<^verbatim>\<open>df.columns = df.columns.str.strip()\<close>.\<close>

definition robust_read_table_corr :: "'c dataframe \<Rightarrow> 'c dataframe" where
  "robust_read_table_corr raw = map (\<lambda>(c, s). (strip c, s)) raw"

section \<open>Errors and numbers\<close>

text \<open>
  Every exception a run can end with is a value. \<open>ValueError\<close> is the one the insolation
  script raises itself (the missing columns, then the columns found, as its message lists
  them); the others are raised by the libraries: \<open>KeyError\<close> by \<^verbatim>\<open>df[c]\<close> for a label that
  is no column, \<open>TypeError\<close> by \<^verbatim>\<open>pd.to_numeric\<close> when \<^verbatim>\<open>df[c]\<close> is two-dimensional (the
  label occurs more than once), \<open>OrderError\<close> by SciPy for an order that is no integer
  \<open>\<ge> 1\<close> (a \<^verbatim>\<open>ValueError\<close> of SciPy's, kept apart from the script's own),
  \<open>IndexError\<close> by \<^verbatim>\<open>iloc\<close> for a position out of bounds.
\<close>

datatype error =
    ValueError "ustr list" "ustr list"
  | KeyError ustr
  | TypeError
  | OrderError
  | IndexError

text \<open>
  A float64 is a real number or NaN (\<open>None\<close>). Arithmetic is that of the reals: rounding
  and the infinities are not modelled. NaN propagates through arithmetic and every
  comparison with NaN is false, as in NumPy.
\<close>

type_synonym float64 = "real option"

definition fmul :: "float64 \<Rightarrow> float64 \<Rightarrow> float64" where
  "fmul a b = (case a of None \<Rightarrow> None | Some x \<Rightarrow> (case b of None \<Rightarrow> None | Some y \<Rightarrow> Some (x * y)))"

definition ge_const :: "float64 \<Rightarrow> real \<Rightarrow> bool" where
  "ge_const a c = (case a of None \<Rightarrow> False | Some x \<Rightarrow> x \<ge> c)"

definition le_const :: "float64 \<Rightarrow> real \<Rightarrow> bool" where
  "le_const a c = (case a of None \<Rightarrow> False | Some x \<Rightarrow> x \<le> c)"

definition gt_const :: "float64 \<Rightarrow> real \<Rightarrow> bool" where
  "gt_const a c = (case a of None \<Rightarrow> False | Some x \<Rightarrow> x > c)"

definition np_greater :: "float64 \<Rightarrow> float64 \<Rightarrow> bool" where
  "np_greater a b = (case a of None \<Rightarrow> False | Some x \<Rightarrow> (case b of None \<Rightarrow> False | Some y \<Rightarrow> x > y))"

definition np_less :: "float64 \<Rightarrow> float64 \<Rightarrow> bool" where
  "np_less a b = (case a of None \<Rightarrow> False | Some x \<Rightarrow> (case b of None \<Rightarrow> False | Some y \<Rightarrow> x < y))"

definition deg2rad :: "real \<Rightarrow> real" where
  "deg2rad x = x * (pi / 180)"

definition np_deg2rad :: "float64 list \<Rightarrow> float64 list" where
  "np_deg2rad xs = map (map_option deg2rad) xs"

definition np_sin :: "float64 list \<Rightarrow> float64 list" where
  "np_sin xs = map (map_option sin) xs"

text \<open>\<^verbatim>\<open>Series.max()\<close>: NaN is skipped; the maximum of nothing is NaN.\<close>

definition series_max :: "float64 list \<Rightarrow> float64" where
  "series_max xs =
     (case List.map_filter (\<lambda>x. x) xs of [] \<Rightarrow> None | v # vs \<Rightarrow> Some (fold max vs v))"

section \<open>Tables\<close>

text \<open>
  \<^verbatim>\<open>df[c] = pd.to_numeric(df[c], errors="coerce")\<close>. \<open>getitem\<close> collects the series
  labelled \<open>c\<close>: none is pandas' \<open>KeyError\<close>, one is the column, more is a frame that
  \<^verbatim>\<open>pd.to_numeric\<close> refuses. \<open>coerce\<close> is what \<^verbatim>\<open>pd.to_numeric\<close> with
  \<^verbatim>\<open>errors="coerce"\<close> makes of one cell: its number, or NaN for a cell that is empty or
  no number.
\<close>

definition getitem :: "'c dataframe \<Rightarrow> ustr \<Rightarrow> 'c list list" where
  "getitem df c = map snd (filter (\<lambda>(n, s). n = c) df)"

definition to_numeric :: "('c \<Rightarrow> float64) \<Rightarrow> 'c dataframe \<Rightarrow> ustr \<Rightarrow> error + float64 list" where
  "to_numeric coerce df c =
     (case getitem df c of
        [] \<Rightarrow> Inl (KeyError c)
      | [s] \<Rightarrow> Inr (map coerce s)
      | _ \<Rightarrow> Inl TypeError)"

text \<open>The loop \<^verbatim>\<open>for c in [...]: df[c] = pd.to_numeric(df[c], errors="coerce")\<close>.\<close>

fun to_numeric_all ::
  "('c \<Rightarrow> float64) \<Rightarrow> 'c dataframe \<Rightarrow> ustr list \<Rightarrow> error + float64 list list" where
  "to_numeric_all coerce df [] = Inr []"
| "to_numeric_all coerce df (c # cs) =
     (case to_numeric coerce df c of
        Inl e \<Rightarrow> Inl e
      | Inr s \<Rightarrow>
          (case to_numeric_all coerce df cs of
             Inl e \<Rightarrow> Inl e
           | Inr ss \<Rightarrow> Inr (s # ss)))"

definition col_age :: ustr where
  "col_age = py ''Age''"

definition col_ecc :: ustr where
  "col_ecc = py ''ECC''"

definition col_obl :: ustr where
  "col_obl = py ''OBL''"

definition col_omega :: ustr where
  "col_omega = py ''OMEGA''"

definition col_insol :: ustr where
  "col_insol = py ''EXI''"

text \<open>
  Of a table the scripts read five columns only, so from here on a table is the list of
  its rows with these five cells (the other columns of the file play no part).
\<close>

record orbital =
  Age :: float64
  ECC :: float64
  OBL :: float64
  OMEGA :: float64
  EXI :: float64

record orbital_b2k = orbital +
  Age_yr_b2k :: float64

fun make_rows :: "float64 list list \<Rightarrow> orbital list" where
  "make_rows [a, e, ob, om, x] =
     map (\<lambda>(a, e, ob, om, x). \<lparr>Age = a, ECC = e, OBL = ob, OMEGA = om, EXI = x\<rparr>)
       (zip a (zip e (zip ob (zip om x))))"
| "make_rows _ = []"

text \<open>
  \<^verbatim>\<open>sort_values(key)\<close>: ascending, NaN last. It is an insertion sort here; the order
  pandas gives rows of equal key is not specified by its default algorithm, and nothing
  below depends on it.
\<close>

definition nan_last_le :: "float64 \<Rightarrow> float64 \<Rightarrow> bool" where
  "nan_last_le a b =
     (case b of None \<Rightarrow> True | Some y \<Rightarrow> (case a of None \<Rightarrow> False | Some x \<Rightarrow> x \<le> y))"

fun insert_row :: "('r \<Rightarrow> float64) \<Rightarrow> 'r \<Rightarrow> 'r list \<Rightarrow> 'r list" where
  "insert_row key r [] = [r]"
| "insert_row key r (x # xs) =
     (if nan_last_le (key r) (key x) then r # x # xs else x # insert_row key r xs)"

definition sort_values :: "('r \<Rightarrow> float64) \<Rightarrow> 'r list \<Rightarrow> 'r list" where
  "sort_values key rows = foldr (insert_row key) rows []"

text \<open>\<^verbatim>\<open>series.iloc[idx]\<close> for an array of positions.\<close>

definition iloc :: "'a list \<Rightarrow> nat list \<Rightarrow> error + 'a list" where
  "iloc xs idx =
     (if list_all (\<lambda>i. i < length xs) idx then Inr (map (\<lambda>i. xs ! i) idx) else Inl IndexError)"

section \<open>Local extrema (SciPy)\<close>

text \<open>
  \<^verbatim>\<open>argrelextrema(data, comparator, order=order)\<close> with its default \<^verbatim>\<open>mode="clip"\<close>, as
  SciPy defines it: every entry is compared with the entries \<open>shift\<close> places to its right
  and to its left, for \<open>shift = 1, \<dots>, order\<close>, where a position beyond an end is replaced
  by that end (\<^verbatim>\<open>data.take(locs + shift, mode="clip")\<close>); the loop stops early once no
  candidate is left; the positions still marked are returned in ascending order.
\<close>

definition take_clip :: "'a list \<Rightarrow> int \<Rightarrow> 'a" where
  "take_clip data j = data ! nat (max 0 (min j (int (length data) - 1)))"

definition relextrema_step ::
  "('a \<Rightarrow> 'a \<Rightarrow> bool) \<Rightarrow> 'a list \<Rightarrow> int \<Rightarrow> bool list \<Rightarrow> bool list" where
  "relextrema_step comparator data shift results =
     map (\<lambda>(i, r). r \<and> comparator (data ! i) (take_clip data (int i + shift))
                      \<and> comparator (data ! i) (take_clip data (int i - shift)))
       (zip [0..<length data] results)"

fun relextrema_loop ::
  "('a \<Rightarrow> 'a \<Rightarrow> bool) \<Rightarrow> 'a list \<Rightarrow> int list \<Rightarrow> bool list \<Rightarrow> bool list" where
  "relextrema_loop comparator data [] results = results"
| "relextrema_loop comparator data (shift # shifts) results =
     (let results' = relextrema_step comparator data shift results
      in if \<not> list_ex (\<lambda>r. r) results' then results'
         else relextrema_loop comparator data shifts results')"

definition boolrelextrema ::
  "'a list \<Rightarrow> ('a \<Rightarrow> 'a \<Rightarrow> bool) \<Rightarrow> int \<Rightarrow> error + bool list" where
  "boolrelextrema data comparator order =
     (if order < 1 then Inl OrderError
      else Inr (relextrema_loop comparator data [1..order] (replicate (length data) True)))"

definition nonzero :: "bool list \<Rightarrow> nat list" where
  "nonzero results = map fst (filter snd (zip [0..<length results] results))"

definition argrelextrema ::
  "'a list \<Rightarrow> ('a \<Rightarrow> 'a \<Rightarrow> bool) \<Rightarrow> int \<Rightarrow> error + nat list" where
  "argrelextrema data comparator order =
     (case boolrelextrema data comparator order of
        Inl e \<Rightarrow> Inl e
      | Inr results \<Rightarrow> Inr (nonzero results))"

text \<open>
  \<^verbatim>\<open>
  def get_extrema_idx(series, order=3):
      arr = np.asarray(series, dtype=float)
      max_idx = argrelextrema(arr, np.greater, order=order)[0]
      min_idx = argrelextrema(arr, np.less, order=order)[0]
      return max_idx, min_idx
  \<close>
\<close>

definition get_extrema_idx :: "float64 list \<Rightarrow> int \<Rightarrow> error + (nat list \<times> nat list)" where
  "get_extrema_idx series order =
     (case argrelextrema series np_greater order of
        Inl e \<Rightarrow> Inl e
      | Inr max_idx \<Rightarrow>
          (case argrelextrema series np_less order of
             Inl e \<Rightarrow> Inl e
           | Inr min_idx \<Rightarrow> Inr (max_idx, min_idx)))"

section \<open>The insolation script\<close>

definition AGE_MIN_YR_B2K :: real where
  "AGE_MIN_YR_B2K = 128000"

definition AGE_MAX_YR_B2K :: real where
  "AGE_MAX_YR_B2K = 220000"

definition SHIFT_YEARS :: real where
  "SHIFT_YEARS = 50"

definition EXTREMA_ORDER :: int where
  "EXTREMA_ORDER = 3"

definition needed :: "ustr set" where
  "needed = {col_age, col_ecc, col_obl, col_omega, col_insol}"


definition missing :: "ustr list \<Rightarrow> 'c dataframe \<Rightarrow> ustr list" where
  "missing iter df = filter (\<lambda>c. c \<notin> set (df_columns df)) iter"

definition check_columns :: "ustr list \<Rightarrow> 'c dataframe \<Rightarrow> error + unit" where
  "check_columns iter df =
     (if missing iter df \<noteq> [] then Inl (ValueError (missing iter df) (df_columns df))
      else Inr ())"

text \<open>\<^verbatim>\<open>df["Age_yr_b2k"] = df[col_age] * 1000.0 + SHIFT_YEARS\<close>\<close>

definition add_age_yr_b2k :: "orbital \<Rightarrow> orbital_b2k" where
  "add_age_yr_b2k r =
     \<lparr>Age = Age r, ECC = ECC r, OBL = OBL r, OMEGA = OMEGA r, EXI = EXI r,
      Age_yr_b2k = map_option (\<lambda>a. a * 1000 + SHIFT_YEARS) (Age r)\<rparr>"

text \<open>
  \<^verbatim>\<open>(df["Age_yr_b2k"] >= AGE_MIN_YR_B2K) & (df["Age_yr_b2k"] <= AGE_MAX_YR_B2K)\<close>
\<close>

definition in_window :: "orbital_b2k \<Rightarrow> bool" where
  "in_window r \<longleftrightarrow>
     ge_const (Age_yr_b2k r) AGE_MIN_YR_B2K \<and> le_const (Age_yr_b2k r) AGE_MAX_YR_B2K"

text \<open>\<^verbatim>\<open>dropna(subset=["Age_yr_b2k", col_insol, col_ecc, col_obl, col_omega])\<close> keeps:\<close>

definition notna :: "orbital_b2k \<Rightarrow> bool" where
  "notna r \<longleftrightarrow>
     Age_yr_b2k r \<noteq> None \<and> EXI r \<noteq> None \<and> ECC r \<noteq> None \<and> OBL r \<noteq> None \<and> OMEGA r \<noteq> None"

definition window_filter :: "orbital_b2k list \<Rightarrow> orbital_b2k list" where
  "window_filter rows = filter in_window rows"

definition transform :: "orbital list \<Rightarrow> orbital_b2k list" where
  "transform rows =
     sort_values Age_yr_b2k (filter notna (window_filter (map add_age_yr_b2k rows)))"

text \<open>\<^verbatim>\<open>obl = obl_raw / 1000.0 if obl_raw.max() > 100 else obl_raw\<close>\<close>

definition scale_obl :: "float64 list \<Rightarrow> float64 list" where
  "scale_obl obl_raw =
     (if gt_const (series_max obl_raw) 100 then map (map_option (\<lambda>v. v / 1000)) obl_raw
      else obl_raw)"

text \<open>
  \<^verbatim>\<open>
  omega_rad = np.deg2rad(df[col_omega])
  prec_index = ecc * np.sin(omega_rad)
  \<close>
\<close>

definition precession :: "float64 list \<Rightarrow> float64 list \<Rightarrow> float64 list" where
  "precession ecc omega = map (\<lambda>(e, s). fmul e s) (zip ecc (np_sin (np_deg2rad omega)))"

text \<open>
  \<^verbatim>\<open>ax.scatter(insol.iloc[idx], age.iloc[idx], ...)\<close>: the points handed to the plot,
  for each of the six index arrays in the order of the script.
\<close>

definition scatter ::
  "float64 list \<Rightarrow> float64 list \<Rightarrow> nat list \<Rightarrow> error + (float64 list \<times> float64 list)" where
  "scatter insol age idx =
     (case iloc insol idx of
        Inl e \<Rightarrow> Inl e
      | Inr xs \<Rightarrow> (case iloc age idx of Inl e \<Rightarrow> Inl e | Inr ys \<Rightarrow> Inr (xs, ys)))"

fun scatter_all ::
  "float64 list \<Rightarrow> float64 list \<Rightarrow> nat list list \<Rightarrow>
   error + (float64 list \<times> float64 list) list" where
  "scatter_all insol age [] = Inr []"
| "scatter_all insol age (idx # rest) =
     (case scatter insol age idx of
        Inl e \<Rightarrow> Inl e
      | Inr m \<Rightarrow>
          (case scatter_all insol age rest of Inl e \<Rightarrow> Inl e | Inr ms \<Rightarrow> Inr (m # ms)))"

text \<open>
  What a run that reaches its end has computed: the table after the transform stage, the
  derived series, the extrema, the data drawn (the line insolation against age, then the
  markers) and the files written, in order.
\<close>

record insolation_run =
  df :: "orbital_b2k list"
  obl :: "float64 list"
  prec_index :: "float64 list"
  ecc_max :: "nat list"
  ecc_min :: "nat list"
  obl_max :: "nat list"
  obl_min :: "nat list"
  prec_max :: "nat list"
  prec_min :: "nat list"
  line :: "float64 list \<times> float64 list"
  markers :: "(float64 list \<times> float64 list) list"
  saved :: "string list"

definition out_base :: string where
  "out_base = ''insolation_vs_age_orbital_extrema''"

text \<open>The script from the extrema on: lines 91 to 225, on the transformed table.\<close>

definition analyse :: "orbital_b2k list \<Rightarrow> error + insolation_run" where
  "analyse table =
     (let age = map Age_yr_b2k table;
          insol = map EXI table;
          ecc = map ECC table;
          obl_raw = map OBL table;
          obl' = scale_obl obl_raw;
          prec = precession ecc (map OMEGA table)
      in case get_extrema_idx ecc EXTREMA_ORDER of
           Inl e \<Rightarrow> Inl e
         | Inr (emax, emin) \<Rightarrow>
        (case get_extrema_idx obl' EXTREMA_ORDER of
           Inl e \<Rightarrow> Inl e
         | Inr (omax, omin) \<Rightarrow>
        (case get_extrema_idx prec EXTREMA_ORDER of
           Inl e \<Rightarrow> Inl e
         | Inr (pmax, pmin) \<Rightarrow>
        (case scatter_all insol age [emax, emin, omax, omin, pmax, pmin] of
           Inl e \<Rightarrow> Inl e
         | Inr ms \<Rightarrow>
             Inr \<lparr>df = table, obl = obl', prec_index = prec,
                  ecc_max = emax, ecc_min = emin, obl_max = omax, obl_min = omin,
                  prec_max = pmax, prec_min = pmin,
                  line = (insol, age), markers = ms,
                  saved = [out_base @ ''.jpg'', out_base @ ''.svg'']\<rparr>))))"

text \<open>
  The whole script, on the table \<^verbatim>\<open>pd.read_csv\<close> returns for the file: normalise the
  headers, check the columns, make the five columns numeric, transform, analyse.
\<close>

definition insolation_script ::
  "ustr list \<Rightarrow> ('c \<Rightarrow> float64) \<Rightarrow> 'c dataframe \<Rightarrow> error + insolation_run" where
  "insolation_script iter coerce raw =
     (let loaded = robust_read_table raw
      in case check_columns iter loaded of
           Inl e \<Rightarrow> Inl e
         | Inr _ \<Rightarrow>
        (case to_numeric_all coerce loaded [col_age, col_ecc, col_obl, col_omega, col_insol] of
           Inl e \<Rightarrow> Inl e
         | Inr cols \<Rightarrow> analyse (transform (make_rows cols))))"

section \<open>The correlation script\<close>

definition AGE_MIN_B2K :: real where
  "AGE_MIN_B2K = 115"

definition AGE_MAX_B2K :: real where
  "AGE_MAX_B2K = 250"

definition SHIFT_YEARS_corr :: real where
  "SHIFT_YEARS_corr = 50"

definition SHIFT_KA :: real where
  "SHIFT_KA = SHIFT_YEARS_corr / 1000"

text \<open>
  The plotting state: the figures drawn (the x, y and colour data of each scatter; axis
  labels and tick settings are left out) and the files written, in order.
  \<^verbatim>\<open>
  def export_figure(fig, out_base):
      fig.savefig(f"{out_base}.jpg", dpi=DPI_JPG, bbox_inches="tight")
      fig.savefig(f"{out_base}.svg", bbox_inches="tight")
  \<close>
\<close>

record figure =
  fig_x :: "float64 list"
  fig_y :: "float64 list"
  fig_c :: "float64 list"

record plt =
  figures :: "figure list"
  files :: "string list"

definition export_figure :: "string \<Rightarrow> plt \<Rightarrow> plt" where
  "export_figure base st = st\<lparr>files := files st @ [base @ ''.jpg'', base @ ''.svg'']\<rparr>"

definition scatter_plot ::
  "float64 list \<Rightarrow> float64 list \<Rightarrow> float64 list \<Rightarrow> string \<Rightarrow> plt \<Rightarrow> plt" where
  "scatter_plot x y age base st =
     export_figure base (st\<lparr>figures := figures st @ [\<lparr>fig_x = x, fig_y = y, fig_c = age\<rparr>]\<rparr>)"

text \<open>
  \<^verbatim>\<open>
  age_min_bp = AGE_MIN_B2K - SHIFT_KA
  age_max_bp = AGE_MAX_B2K - SHIFT_KA
  sub = df[(df[col_age_bp] >= age_min_bp) & (df[col_age_bp] <= age_max_bp)].copy()
  sub = sub.sort_values(col_age_bp)
  age_b2k = sub[col_age_bp] + SHIFT_KA
  \<close>
\<close>

definition age_min_bp :: real where
  "age_min_bp = AGE_MIN_B2K - SHIFT_KA"

definition age_max_bp :: real where
  "age_max_bp = AGE_MAX_B2K - SHIFT_KA"

definition in_window_bp :: "orbital \<Rightarrow> bool" where
  "in_window_bp r \<longleftrightarrow> ge_const (Age r) age_min_bp \<and> le_const (Age r) age_max_bp"

definition subset_corr :: "orbital list \<Rightarrow> orbital list" where
  "subset_corr rows = sort_values Age (filter in_window_bp rows)"

definition to_b2k :: "float64 \<Rightarrow> float64" where
  "to_b2k a = map_option (\<lambda>v. v + SHIFT_KA) a"

text \<open>The same two lines as in the insolation script, as the correlation script has them.\<close>

definition scale_obl_corr :: "float64 list \<Rightarrow> float64 list" where
  "scale_obl_corr obl_raw =
     (if gt_const (series_max obl_raw) 100 then map (map_option (\<lambda>v. v / 1000)) obl_raw
      else obl_raw)"

definition precession_corr :: "float64 list \<Rightarrow> float64 list \<Rightarrow> float64 list" where
  "precession_corr ecc omega = map (\<lambda>(e, s). fmul e s) (zip ecc (np_sin (np_deg2rad omega)))"

record correlation_run =
  sub :: "orbital list"
  age_b2k :: "float64 list"
  obl_c :: "float64 list"
  prec_index_c :: "float64 list"
  plots :: plt

definition main :: "('c \<Rightarrow> float64) \<Rightarrow> 'c dataframe \<Rightarrow> error + correlation_run" where
  "main coerce raw =
     (let loaded = robust_read_table_corr raw
      in case to_numeric_all coerce loaded [col_age, col_ecc, col_obl, col_omega, col_insol] of
           Inl e \<Rightarrow> Inl e
         | Inr cols \<Rightarrow>
             (let s = subset_corr (make_rows cols);
                  age = map (\<lambda>r. to_b2k (Age r)) s;
                  ecc = map ECC s;
                  insol = map EXI s;
                  obl' = scale_obl_corr (map OBL s);
                  prec = precession_corr ecc (map OMEGA s);
                  p1 = scatter_plot ecc insol age ''corr_insolation_vs_ecc''
                         \<lparr>figures = [], files = []\<rparr>;
                  p2 = scatter_plot obl' insol age ''corr_insolation_vs_obliquity'' p1;
                  p3 = scatter_plot prec insol age ''corr_insolation_vs_precession_index'' p2
              in Inr \<lparr>sub = s, age_b2k = age, obl_c = obl', prec_index_c = prec, plots = p3\<rparr>))"

section \<open>Notions used in the statements\<close>

text \<open>
  The columns the conversion loop of either script runs over, in its order (the
  correlation script calls the first \<^verbatim>\<open>col_age_bp\<close>; the names are the same five).
\<close>

definition required :: "ustr list" where
  "required = [col_age, col_ecc, col_obl, col_omega, col_insol]"

text \<open>
  The claim's notion of a strict local extremum: the value at \<open>i\<close> compares strictly
  (\<open>cmp\<close> is greater, or less) with every value at distance 1 to \<open>order\<close> within the
  array bounds.
\<close>

definition strict_local_extremum ::
  "('a \<Rightarrow> 'a \<Rightarrow> bool) \<Rightarrow> 'a list \<Rightarrow> int \<Rightarrow> nat \<Rightarrow> bool" where
  "strict_local_extremum cmp arr order i \<longleftrightarrow>
     i < length arr \<and>
     (\<forall>j<length arr. j \<noteq> i \<and> \<bar>int i - int j\<bar> \<le> order \<longrightarrow> cmp (arr ! i) (arr ! j))"

text \<open>
  An index array that holds, in ascending order and once each, the positions that are
  neither the first nor the last and are strict local extrema.
\<close>

definition interior_extrema ::
  "('a \<Rightarrow> 'a \<Rightarrow> bool) \<Rightarrow> 'a list \<Rightarrow> int \<Rightarrow> nat list \<Rightarrow> bool" where
  "interior_extrema cmp data order idx \<longleftrightarrow>
     sorted idx \<and> distinct idx \<and>
     (\<forall>i. i \<in> set idx \<longleftrightarrow>
        0 < i \<and> i + 1 < length data \<and>
        (\<forall>j<length data. j \<noteq> i \<and> \<bar>int i - int j\<bar> \<le> order \<longrightarrow> cmp (data ! i) (data ! j)))"

text \<open>
  The claim's precession index of one row: \<open>ECC * sin(OMEGA in radians)\<close>, and NaN
  when one of the two is NaN.
\<close>

definition spec_prec_index :: "real \<Rightarrow> real \<Rightarrow> real" where
  "spec_prec_index ecc omega = ecc * sin (omega * pi / 180)"

definition row_prec_index :: "float64 \<Rightarrow> float64 \<Rightarrow> float64" where
  "row_prec_index e w =
     (case e of None \<Rightarrow> None
      | Some x \<Rightarrow> (case w of None \<Rightarrow> None | Some y \<Rightarrow> Some (spec_prec_index x y)))"

text \<open>
  What decides a failure of the conversion loop over the columns \<open>cs\<close> of a table with
  the labels \<open>cols\<close>: the first column of the loop that is no label (pandas'
  \<open>KeyError\<close> for it) or is a label more than once (the \<open>TypeError\<close> of
  \<^verbatim>\<open>pd.to_numeric\<close>), every column before it being a label exactly once.
\<close>

definition first_failure :: "ustr list \<Rightarrow> ustr list \<Rightarrow> error \<Rightarrow> bool" where
  "first_failure cols cs e \<longleftrightarrow>
     (\<exists>pre c post. cs = pre @ c # post \<and> (\<forall>d\<in>set pre. count_list cols d = 1) \<and>
        ((c \<notin> set cols \<and> e = KeyError c) \<or> (1 < count_list cols c \<and> e = TypeError)))"

section \<open>Example files\<close>

text \<open>
  A small table as \<^verbatim>\<open>pd.read_csv\<close> returns it, with headers that need normalising, the
  rows out of order, one row outside both age windows and one row without eccentricity.
  Its cells are numbers already, so \<open>coerce\<close> is the identity. \<open>example_iter\<close> is one
  order in which the set \<open>needed\<close> may be iterated; \<open>example_cols\<close> are the five numeric
  columns, \<open>example_table\<close> and \<open>example_run\<close> what the insolation script makes of them,
  \<open>example_sub\<close> and \<open>example_corr\<close> what the correlation script does.
\<close>

definition example_raw :: "float64 dataframe" where
  "example_raw =
     [(SPACE # py ''Age'', [Some 150, Some 130, Some 140, Some 160, Some 300, Some 145]),
      (py ''ECC'' @ [SPACE], [Some (3/100), Some (1/100), Some (1/25), Some (1/50), Some (1/20), None]),
      (py ''OBL'', [Some 23000, Some 23500, Some 22000, Some 24000, Some 25000, Some 23000]),
      (py ''OMEGA'', [Some 0, Some 0, Some 90, Some 180, Some 90, Some 0]),
      (NBSP # py ''EXI'', [Some 420, Some 400, Some 450, Some 430, Some 500, Some 440])]"

definition example_iter :: "ustr list" where
  "example_iter = [col_insol, col_age, col_omega, col_ecc, col_obl]"

definition example_cols :: "float64 list list" where
  "example_cols =
     [[Some 150, Some 130, Some 140, Some 160, Some 300, Some 145],
      [Some (3/100), Some (1/100), Some (1/25), Some (1/50), Some (1/20), None],
      [Some 23000, Some 23500, Some 22000, Some 24000, Some 25000, Some 23000],
      [Some 0, Some 0, Some 90, Some 180, Some 90, Some 0],
      [Some 420, Some 400, Some 450, Some 430, Some 500, Some 440]]"

definition example_table :: "orbital_b2k list" where
  "example_table =
     [\<lparr>Age = Some 130, ECC = Some (1/100), OBL = Some 23500, OMEGA = Some 0, EXI = Some 400,
       Age_yr_b2k = Some 130050\<rparr>,
      \<lparr>Age = Some 140, ECC = Some (1/25), OBL = Some 22000, OMEGA = Some 90, EXI = Some 450,
       Age_yr_b2k = Some 140050\<rparr>,
      \<lparr>Age = Some 150, ECC = Some (3/100), OBL = Some 23000, OMEGA = Some 0, EXI = Some 420,
       Age_yr_b2k = Some 150050\<rparr>,
      \<lparr>Age = Some 160, ECC = Some (1/50), OBL = Some 24000, OMEGA = Some 180, EXI = Some 430,
       Age_yr_b2k = Some 160050\<rparr>]"

definition example_run :: insolation_run where
  "example_run =
     \<lparr>df = example_table,
      obl = [Some (47/2), Some 22, Some 23, Some 24],
      prec_index = [Some 0, Some (1/25), Some 0, Some 0],
      ecc_max = [1], ecc_min = [], obl_max = [], obl_min = [1], prec_max = [1], prec_min = [],
      line = ([Some 400, Some 450, Some 420, Some 430],
              [Some 130050, Some 140050, Some 150050, Some 160050]),
      markers = [([Some 450], [Some 140050]), ([], []), ([], []),
                 ([Some 450], [Some 140050]), ([Some 450], [Some 140050]), ([], [])],
      saved = [''insolation_vs_age_orbital_extrema.jpg'', ''insolation_vs_age_orbital_extrema.svg'']\<rparr>"

definition example_sub :: "orbital list" where
  "example_sub =
     [\<lparr>Age = Some 130, ECC = Some (1/100), OBL = Some 23500, OMEGA = Some 0, EXI = Some 400\<rparr>,
      \<lparr>Age = Some 140, ECC = Some (1/25), OBL = Some 22000, OMEGA = Some 90, EXI = Some 450\<rparr>,
      \<lparr>Age = Some 145, ECC = None, OBL = Some 23000, OMEGA = Some 0, EXI = Some 440\<rparr>,
      \<lparr>Age = Some 150, ECC = Some (3/100), OBL = Some 23000, OMEGA = Some 0, EXI = Some 420\<rparr>,
      \<lparr>Age = Some 160, ECC = Some (1/50), OBL = Some 24000, OMEGA = Some 180, EXI = Some 430\<rparr>]"

definition example_corr :: correlation_run where
  "example_corr =
     \<lparr>sub = example_sub,
      age_b2k = [Some (2601/20), Some (2801/20), Some (2901/20), Some (3001/20), Some (3201/20)],
      obl_c = [Some (47/2), Some 22, Some 23, Some 23, Some 24],
      prec_index_c = [Some 0, Some (1/25), None, Some 0, Some 0],
      plots =
        \<lparr>figures =
           [\<lparr>fig_x = [Some (1/100), Some (1/25), None, Some (3/100), Some (1/50)],
             fig_y = [Some 400, Some 450, Some 440, Some 420, Some 430],
             fig_c = [Some (2601/20), Some (2801/20), Some (2901/20), Some (3001/20), Some (3201/20)]\<rparr>,
            \<lparr>fig_x = [Some (47/2), Some 22, Some 23, Some 23, Some 24],
             fig_y = [Some 400, Some 450, Some 440, Some 420, Some 430],
             fig_c = [Some (2601/20), Some (2801/20), Some (2901/20), Some (3001/20), Some (3201/20)]\<rparr>,
            \<lparr>fig_x = [Some 0, Some (1/25), None, Some 0, Some 0],
             fig_y = [Some 400, Some 450, Some 440, Some 420, Some 430],
             fig_c = [Some (2601/20), Some (2801/20), Some (2901/20), Some (3001/20), Some (3201/20)]\<rparr>],
         files =
           [''corr_insolation_vs_ecc.jpg'', ''corr_insolation_vs_ecc.svg'',
            ''corr_insolation_vs_obliquity.jpg'', ''corr_insolation_vs_obliquity.svg'',
            ''corr_insolation_vs_precession_index.jpg'',
            ''corr_insolation_vs_precession_index.svg'']\<rparr>\<rparr>"

text \<open>A table without the columns OMEGA and EXI.\<close>

definition example_short :: "float64 dataframe" where
  "example_short =
     [(py ''Age'', [Some 150]), (py ''ECC'', [Some (3/100)]), (py ''OBL'', [Some 23000])]"



section \<open>Header normalisation\<close>




lemma dropWhile_id: "xs = [] \<or> \<not> P (hd xs) \<Longrightarrow> dropWhile P xs = xs"
  by (cases xs) auto

lemma dropWhile_hd: "dropWhile P xs = [] \<or> \<not> P (hd (dropWhile P xs))"
  using hd_dropWhile [of P xs] by blast

lemma strip_ends:
  "strip s = [] \<or> (\<not> isspace (hd (strip s)) \<and> \<not> isspace (last (strip s)))"
proof (cases "strip s = []")
  case True
  then show ?thesis by simp
next
  case False
  define t where "t = dropWhile isspace s"
  define u where "u = dropWhile isspace (rev t)"
  have su: "strip s = rev u"
    by (simp add: strip_def t_def u_def)
  with False have u: "u \<noteq> []" by simp
  then have hu: "\<not> isspace (hd u)"
    unfolding u_def using dropWhile_hd [of isspace "rev t"] by blast
  have l: "last (strip s) = hd u"
    using u by (simp add: su last_rev)
  have "rev t = takeWhile isspace (rev t) @ u"
    unfolding u_def by simp
  then have "rev (rev t) = rev (takeWhile isspace (rev t) @ u)"
    by simp
  then have t: "t = rev u @ rev (takeWhile isspace (rev t))"
    by simp
  have "t \<noteq> []"
    using t u by auto
  then have ht: "\<not> isspace (hd t)"
    unfolding t_def using dropWhile_hd [of isspace s] by blast
  have "hd t = hd (rev u @ rev (takeWhile isspace (rev t)))"
    using t by simp
  also have "\<dots> = hd (rev u)"
    using u by simp
  finally have "hd t = hd (strip s)"
    by (simp add: su)
  then show ?thesis
    using hu l ht by simp
qed

lemma strip_fixed:
  assumes "s = [] \<or> (\<not> isspace (hd s) \<and> \<not> isspace (last s))"
  shows "strip s = s"
proof (cases "s = []")
  case True
  then show ?thesis by (simp add: strip_def)
next
  case False
  with assms have h: "\<not> isspace (hd s)" and l: "\<not> isspace (last s)" by auto
  have 1: "dropWhile isspace s = s"
    using h by (simp add: dropWhile_id)
  have "hd (rev s) = last s"
    using False by (simp add: hd_rev)
  then have 2: "dropWhile isspace (rev s) = rev s"
    using l by (simp add: dropWhile_id)
  show ?thesis
    by (simp add: strip_def 1 2)
qed

lemma strip_strip: "strip (strip s) = strip s"
  by (rule strip_fixed) (rule strip_ends)









section \<open>What the extrema search returns\<close>

lemma length_relextrema_step:
  "length results = length data \<Longrightarrow> length (relextrema_step cmp data s results) = length data"
  by (simp add: relextrema_step_def)

lemma nth_relextrema_step:
  assumes "length results = length data" and "i < length data"
  shows "relextrema_step cmp data s results ! i \<longleftrightarrow>
         results ! i \<and> cmp (data ! i) (take_clip data (int i + s))
                     \<and> cmp (data ! i) (take_clip data (int i - s))"
  using assms by (simp add: relextrema_step_def)

lemma relextrema_loop_char:
  "length results = length data \<Longrightarrow>
   length (relextrema_loop cmp data shifts results) = length data \<and>
   (\<forall>i<length data. relextrema_loop cmp data shifts results ! i \<longleftrightarrow>
      results ! i \<and> (\<forall>s\<in>set shifts. cmp (data ! i) (take_clip data (int i + s))
                                      \<and> cmp (data ! i) (take_clip data (int i - s))))"
proof (induction shifts arbitrary: results)
  case Nil
  then show ?case by simp
next
  case (Cons s shifts)
  define r where "r = relextrema_step cmp data s results"
  have len: "length r = length data"
    unfolding r_def using Cons.prems by (rule length_relextrema_step)
  have nth: "\<And>i. i < length data \<Longrightarrow> r ! i \<longleftrightarrow>
      results ! i \<and> cmp (data ! i) (take_clip data (int i + s))
                  \<and> cmp (data ! i) (take_clip data (int i - s))"
    unfolding r_def using Cons.prems by (rule nth_relextrema_step)
  show ?case
  proof (cases "list_ex (\<lambda>b. b) r")
    case True
    then have "relextrema_loop cmp data (s # shifts) results = relextrema_loop cmp data shifts r"
      by (simp add: r_def)
    then show ?thesis
      using Cons.IH [OF len] nth by auto
  next
    case False
    then have none: "\<And>i. i < length data \<Longrightarrow> \<not> r ! i"
      using len by (auto simp: list_ex_iff in_set_conv_nth)
    from False have "relextrema_loop cmp data (s # shifts) results = r"
      by (simp add: r_def)
    then show ?thesis
      using len none nth by auto
  qed
qed

lemma set_nonzero: "set (nonzero rs) = {i. i < length rs \<and> rs ! i}"
proof -
  have "set (nonzero rs) = fst ` {p \<in> set (zip [0..<length rs] rs). snd p}"
    by (simp add: nonzero_def)
  also have "\<dots> = {i. i < length rs \<and> rs ! i}"
    by (force simp: set_zip image_iff)
  finally show ?thesis .
qed

lemma nonzero_filter: "nonzero rs = filter (\<lambda>i. rs ! i) [0..<length rs]"
proof -
  define Z where "Z = zip [0..<length rs] rs"
  have z: "map fst Z = [0..<length rs]"
    unfolding Z_def by (rule map_fst_zip) simp
  have "filter (\<lambda>i. rs ! i) [0..<length rs] = filter (\<lambda>i. rs ! i) (map fst Z)"
    by (simp only: z)
  also have "\<dots> = map fst (filter ((\<lambda>i. rs ! i) \<circ> fst) Z)"
    by (rule filter_map)
  also have "\<dots> = map fst (filter snd Z)"
    by (rule arg_cong [where f = "map fst"], rule filter_cong) (auto simp: Z_def set_zip)
  finally show ?thesis
    by (simp add: nonzero_def Z_def)
qed

lemma sorted_distinct_nonzero: "sorted (nonzero rs) \<and> distinct (nonzero rs)"
  by (simp add: nonzero_filter sorted_wrt_filter)

lemma argrelextrema_char:
  assumes "1 \<le> order"
  shows "\<exists>idx. argrelextrema data cmp order = Inr idx \<and> sorted idx \<and> distinct idx \<and>
           (\<forall>i. i \<in> set idx \<longleftrightarrow>
              i < length data \<and>
              (\<forall>s\<in>{1..order}. cmp (data ! i) (take_clip data (int i + s))
                              \<and> cmp (data ! i) (take_clip data (int i - s))))"
proof -
  define rs where "rs = relextrema_loop cmp data [1..order] (replicate (length data) True)"
  have a: "argrelextrema data cmp order = Inr (nonzero rs)"
    using assms by (simp add: argrelextrema_def boolrelextrema_def rs_def)
  have c: "length rs = length data \<and>
   (\<forall>i<length data. rs ! i \<longleftrightarrow>
      replicate (length data) True ! i \<and> (\<forall>s\<in>set [1..order]. cmp (data ! i) (take_clip data (int i + s))
                                      \<and> cmp (data ! i) (take_clip data (int i - s))))"
    unfolding rs_def by (rule relextrema_loop_char) simp
  have "\<forall>i. i \<in> set (nonzero rs) \<longleftrightarrow>
              i < length data \<and>
              (\<forall>s\<in>{1..order}. cmp (data ! i) (take_clip data (int i + s))
                              \<and> cmp (data ! i) (take_clip data (int i - s)))"
    using c by (auto simp: set_nonzero)
  then show ?thesis
    using a sorted_distinct_nonzero [of rs] by blast
qed

lemma clip_window:
  assumes irr: "\<And>x. \<not> cmp x x" and i: "i < length data" and o: "1 \<le> order"
  shows "(\<forall>s\<in>{1..order}. cmp (data ! i) (take_clip data (int i + s))
                         \<and> cmp (data ! i) (take_clip data (int i - s))) \<longleftrightarrow>
         0 < i \<and> i + 1 < length data \<and>
         (\<forall>j<length data. j \<noteq> i \<and> \<bar>int i - int j\<bar> \<le> order \<longrightarrow> cmp (data ! i) (data ! j))"
    (is "?L \<longleftrightarrow> ?R")
proof
  assume L: ?L
  have one: "(1::int) \<in> {1..order}" using o by simp
  have i0: "0 < i"
  proof (rule ccontr)
    assume "\<not> 0 < i"
    then have "take_clip data (int i - 1) = data ! i"
      by (simp add: take_clip_def)
    with L one irr show False by metis
  qed
  have i1: "i + 1 < length data"
  proof (rule ccontr)
    assume "\<not> i + 1 < length data"
    with i have "int i + 1 > int (length data) - 1" by simp
    then have "min (int i + 1) (int (length data) - 1) = int (length data) - 1" by simp
    moreover have "int (length data) - 1 = int i" using i \<open>\<not> i + 1 < length data\<close> by simp
    ultimately have "take_clip data (int i + 1) = data ! i"
      by (simp add: take_clip_def)
    with L one irr show False by metis
  qed
  have "cmp (data ! i) (data ! j)" if j: "j < length data" "j \<noteq> i" "\<bar>int i - int j\<bar> \<le> order" for j
  proof (cases "i < j")
    case True
    define s where "s = int j - int i"
    have s: "s \<in> {1..order}" using True j by (simp add: s_def)
    have "nat (max 0 (min (int i + s) (int (length data) - 1))) = j"
      using j True by (simp add: s_def)
    then have "take_clip data (int i + s) = data ! j"
      by (simp add: take_clip_def)
    with L s show ?thesis by metis
  next
    case False
    define s where "s = int i - int j"
    have s: "s \<in> {1..order}" using False j by (simp add: s_def)
    have "nat (max 0 (min (int i - s) (int (length data) - 1))) = j"
      using j False by (simp add: s_def)
    then have "take_clip data (int i - s) = data ! j"
      by (simp add: take_clip_def)
    with L s show ?thesis by metis
  qed
  with i0 i1 show ?R by blast
next
  assume R: ?R
  show ?L
  proof
    fix s assume s: "s \<in> {1..order}"
    define jp where "jp = nat (max 0 (min (int i + s) (int (length data) - 1)))"
    define jm where "jm = nat (max 0 (min (int i - s) (int (length data) - 1)))"
    have "jp < length data \<and> jp \<noteq> i \<and> \<bar>int i - int jp\<bar> \<le> order"
      using R s i by (auto simp: jp_def)
    moreover have "jm < length data \<and> jm \<noteq> i \<and> \<bar>int i - int jm\<bar> \<le> order"
      using R s i by (auto simp: jm_def)
    ultimately have "cmp (data ! i) (data ! jp) \<and> cmp (data ! i) (data ! jm)"
      using R by blast
    then show "cmp (data ! i) (take_clip data (int i + s)) \<and> cmp (data ! i) (take_clip data (int i - s))"
      by (simp add: take_clip_def jp_def jm_def)
  qed
qed

lemma np_greater_irrefl: "\<not> np_greater x x"
  by (simp add: np_greater_def split: option.splits)

lemma np_less_irrefl: "\<not> np_less x x"
  by (simp add: np_less_def split: option.splits)

lemma argrelextrema_interior:
  assumes irr: "\<And>x. \<not> cmp x x" and o: "1 \<le> order"
  shows "\<exists>idx. argrelextrema data cmp order = Inr idx \<and> sorted idx \<and> distinct idx \<and>
           (\<forall>i. i \<in> set idx \<longleftrightarrow>
              0 < i \<and> i + 1 < length data \<and>
              (\<forall>j<length data. j \<noteq> i \<and> \<bar>int i - int j\<bar> \<le> order \<longrightarrow> cmp (data ! i) (data ! j)))"
proof -
  obtain idx where a: "argrelextrema data cmp order = Inr idx" "sorted idx" "distinct idx"
    and m: "\<And>i. i \<in> set idx \<longleftrightarrow>
              i < length data \<and>
              (\<forall>s\<in>{1..order}. cmp (data ! i) (take_clip data (int i + s))
                              \<and> cmp (data ! i) (take_clip data (int i - s)))"
    using argrelextrema_char [OF o, of data cmp] by blast
  have "i \<in> set idx \<longleftrightarrow>
              0 < i \<and> i + 1 < length data \<and>
              (\<forall>j<length data. j \<noteq> i \<and> \<bar>int i - int j\<bar> \<le> order \<longrightarrow> cmp (data ! i) (data ! j))" for i
  proof (cases "i < length data")
    case True
    show ?thesis
      unfolding m using clip_window [of cmp i data order, OF irr True o] True by blast
  next
    case False
    then show ?thesis
      unfolding m by simp
  qed
  with a show ?thesis by blast
qed

lemma get_extrema_idx_char:
  assumes "1 \<le> order"
  shows "\<exists>mx mn. get_extrema_idx series order = Inr (mx, mn) \<and>
           interior_extrema np_greater series order mx \<and>
           interior_extrema np_less series order mn"
proof -
  obtain mx where mx: "argrelextrema series np_greater order = Inr mx"
      "interior_extrema np_greater series order mx"
    using argrelextrema_interior [of np_greater order series, OF np_greater_irrefl assms]
    unfolding interior_extrema_def by blast
  obtain mn where mn: "argrelextrema series np_less order = Inr mn"
      "interior_extrema np_less series order mn"
    using argrelextrema_interior [of np_less order series, OF np_less_irrefl assms]
    unfolding interior_extrema_def by blast
  have "get_extrema_idx series order = Inr (mx, mn)"
    by (simp add: get_extrema_idx_def mx(1) mn(1))
  with mx(2) mn(2) show ?thesis by blast
qed

lemma get_extrema_idx_bounds:
  assumes "get_extrema_idx series order = Inr (mx, mn)" and "1 \<le> order"
  shows "\<forall>i\<in>set mx \<union> set mn. i < length series"
proof -
  obtain mx' mn' where g: "get_extrema_idx series order = Inr (mx', mn')"
      "interior_extrema np_greater series order mx'"
      "interior_extrema np_less series order mn'"
    using get_extrema_idx_char [OF assms(2), of series] by blast
  with assms(1) have "mx' = mx" "mn' = mn" by simp_all
  with g(2,3) show ?thesis
    unfolding interior_extrema_def by auto
qed

section \<open>The stages of the insolation script\<close>

lemma EXTREMA_ORDER_ge1: "1 \<le> EXTREMA_ORDER"
  by (simp add: EXTREMA_ORDER_def)

lemma length_scale_obl: "length (scale_obl xs) = length xs"
  by (simp add: scale_obl_def)

lemma length_precession: "length (precession (map ECC t) (map OMEGA t)) = length t"
  by (simp add: precession_def np_sin_def np_deg2rad_def)

lemma iloc_in_bounds:
  "\<forall>i\<in>set idx. i < length xs \<Longrightarrow> iloc xs idx = Inr (map (\<lambda>i. xs ! i) idx)"
  by (simp add: iloc_def list_all_iff)

lemma scatter_in_bounds:
  assumes "length insol = n" and "length age = n" and "\<forall>i\<in>set idx. i < n"
  shows "scatter insol age idx = Inr (map (\<lambda>i. insol ! i) idx, map (\<lambda>i. age ! i) idx)"
  using assms by (simp add: scatter_def iloc_in_bounds)

lemma scatter_all_in_bounds:
  assumes "length insol = n" and "length age = n"
  shows "\<forall>idx\<in>set idxs. \<forall>i\<in>set idx. i < n \<Longrightarrow>
         scatter_all insol age idxs =
           Inr (map (\<lambda>idx. (map (\<lambda>i. insol ! i) idx, map (\<lambda>i. age ! i) idx)) idxs)"
  by (induction idxs) (simp_all add: scatter_in_bounds [OF assms])

lemma analyse_returns:
  "\<exists>emax emin omax omin pmax pmin.
     get_extrema_idx (map ECC t) EXTREMA_ORDER = Inr (emax, emin) \<and>
     get_extrema_idx (scale_obl (map OBL t)) EXTREMA_ORDER = Inr (omax, omin) \<and>
     get_extrema_idx (precession (map ECC t) (map OMEGA t)) EXTREMA_ORDER = Inr (pmax, pmin) \<and>
     (\<forall>idx\<in>set [emax, emin, omax, omin, pmax, pmin]. \<forall>i\<in>set idx. i < length t) \<and>
     analyse t =
       Inr \<lparr>df = t, obl = scale_obl (map OBL t),
            prec_index = precession (map ECC t) (map OMEGA t),
            ecc_max = emax, ecc_min = emin, obl_max = omax, obl_min = omin,
            prec_max = pmax, prec_min = pmin,
            line = (map EXI t, map Age_yr_b2k t),
            markers = map (\<lambda>idx. (map (\<lambda>i. map EXI t ! i) idx, map (\<lambda>i. map Age_yr_b2k t ! i) idx))
                        [emax, emin, omax, omin, pmax, pmin],
            saved = [out_base @ ''.jpg'', out_base @ ''.svg'']\<rparr>"
proof -
  obtain emax emin where e: "get_extrema_idx (map ECC t) EXTREMA_ORDER = Inr (emax, emin)"
    using get_extrema_idx_char [OF EXTREMA_ORDER_ge1] by blast
  obtain omax omin where
    ob: "get_extrema_idx (scale_obl (map OBL t)) EXTREMA_ORDER = Inr (omax, omin)"
    using get_extrema_idx_char [OF EXTREMA_ORDER_ge1] by blast
  obtain pmax pmin where
    p: "get_extrema_idx (precession (map ECC t) (map OMEGA t)) EXTREMA_ORDER = Inr (pmax, pmin)"
    using get_extrema_idx_char [OF EXTREMA_ORDER_ge1] by blast
  have be: "\<forall>i\<in>set emax \<union> set emin. i < length t"
    using get_extrema_idx_bounds [OF e EXTREMA_ORDER_ge1] by simp
  have bo: "\<forall>i\<in>set omax \<union> set omin. i < length t"
    using get_extrema_idx_bounds [OF ob EXTREMA_ORDER_ge1] by (simp add: length_scale_obl)
  have bp: "\<forall>i\<in>set pmax \<union> set pmin. i < length t"
    using get_extrema_idx_bounds [OF p EXTREMA_ORDER_ge1] by (simp add: length_precession)
  have b: "\<forall>idx\<in>set [emax, emin, omax, omin, pmax, pmin]. \<forall>i\<in>set idx. i < length t"
    using be bo bp by auto
  have s: "scatter_all (map EXI t) (map Age_yr_b2k t) [emax, emin, omax, omin, pmax, pmin] =
      Inr (map (\<lambda>idx. (map (\<lambda>i. map EXI t ! i) idx, map (\<lambda>i. map Age_yr_b2k t ! i) idx))
                        [emax, emin, omax, omin, pmax, pmin])"
    by (rule scatter_all_in_bounds [OF _ _ b]) simp_all
  have "analyse t =
       Inr \<lparr>df = t, obl = scale_obl (map OBL t),
            prec_index = precession (map ECC t) (map OMEGA t),
            ecc_max = emax, ecc_min = emin, obl_max = omax, obl_min = omin,
            prec_max = pmax, prec_min = pmin,
            line = (map EXI t, map Age_yr_b2k t),
            markers = map (\<lambda>idx. (map (\<lambda>i. map EXI t ! i) idx, map (\<lambda>i. map Age_yr_b2k t ! i) idx))
                        [emax, emin, omax, omin, pmax, pmin],
            saved = [out_base @ ''.jpg'', out_base @ ''.svg'']\<rparr>"
    by (simp add: analyse_def Let_def e ob p s del: scatter_all.simps)
  with e ob p b show ?thesis by blast
qed

lemma analyse_Inr:
  assumes "analyse t = Inr run"
  shows "df run = t"
    and "obl run = scale_obl (map OBL t)"
    and "prec_index run = precession (map ECC t) (map OMEGA t)"
    and "get_extrema_idx (map ECC t) EXTREMA_ORDER = Inr (ecc_max run, ecc_min run)"
    and "get_extrema_idx (obl run) EXTREMA_ORDER = Inr (obl_max run, obl_min run)"
    and "get_extrema_idx (prec_index run) EXTREMA_ORDER = Inr (prec_max run, prec_min run)"
    and "\<forall>idx\<in>set [ecc_max run, ecc_min run, obl_max run, obl_min run, prec_max run, prec_min run].
           \<forall>i\<in>set idx. i < length t"
    and "line run = (map EXI t, map Age_yr_b2k t)"
    and "markers run =
           map (\<lambda>idx. (map (\<lambda>i. map EXI t ! i) idx, map (\<lambda>i. map Age_yr_b2k t ! i) idx))
             [ecc_max run, ecc_min run, obl_max run, obl_min run, prec_max run, prec_min run]"
    and "saved run = [out_base @ ''.jpg'', out_base @ ''.svg'']"
proof -
  obtain emax emin omax omin pmax pmin where
    a: "get_extrema_idx (map ECC t) EXTREMA_ORDER = Inr (emax, emin)"
       "get_extrema_idx (scale_obl (map OBL t)) EXTREMA_ORDER = Inr (omax, omin)"
       "get_extrema_idx (precession (map ECC t) (map OMEGA t)) EXTREMA_ORDER = Inr (pmax, pmin)"
       "\<forall>idx\<in>set [emax, emin, omax, omin, pmax, pmin]. \<forall>i\<in>set idx. i < length t"
    and r: "analyse t =
       Inr \<lparr>df = t, obl = scale_obl (map OBL t),
            prec_index = precession (map ECC t) (map OMEGA t),
            ecc_max = emax, ecc_min = emin, obl_max = omax, obl_min = omin,
            prec_max = pmax, prec_min = pmin,
            line = (map EXI t, map Age_yr_b2k t),
            markers = map (\<lambda>idx. (map (\<lambda>i. map EXI t ! i) idx, map (\<lambda>i. map Age_yr_b2k t ! i) idx))
                        [emax, emin, omax, omin, pmax, pmin],
            saved = [out_base @ ''.jpg'', out_base @ ''.svg'']\<rparr>"
    using analyse_returns [of t] by blast
  have run: "run = \<lparr>df = t, obl = scale_obl (map OBL t),
            prec_index = precession (map ECC t) (map OMEGA t),
            ecc_max = emax, ecc_min = emin, obl_max = omax, obl_min = omin,
            prec_max = pmax, prec_min = pmin,
            line = (map EXI t, map Age_yr_b2k t),
            markers = map (\<lambda>idx. (map (\<lambda>i. map EXI t ! i) idx, map (\<lambda>i. map Age_yr_b2k t ! i) idx))
                        [emax, emin, omax, omin, pmax, pmin],
            saved = [out_base @ ''.jpg'', out_base @ ''.svg'']\<rparr>"
    using assms r by simp
  show "df run = t" by (simp add: run)
  show "obl run = scale_obl (map OBL t)" by (simp add: run)
  show "prec_index run = precession (map ECC t) (map OMEGA t)" by (simp add: run)
  show "get_extrema_idx (map ECC t) EXTREMA_ORDER = Inr (ecc_max run, ecc_min run)"
    by (simp add: run a(1))
  show "get_extrema_idx (obl run) EXTREMA_ORDER = Inr (obl_max run, obl_min run)"
    by (simp add: run a(2))
  show "get_extrema_idx (prec_index run) EXTREMA_ORDER = Inr (prec_max run, prec_min run)"
    by (simp add: run a(3))
  show "\<forall>idx\<in>set [ecc_max run, ecc_min run, obl_max run, obl_min run, prec_max run, prec_min run].
           \<forall>i\<in>set idx. i < length t"
    using a(4) by (simp add: run)
  show "line run = (map EXI t, map Age_yr_b2k t)" by (simp add: run)
  show "markers run =
           map (\<lambda>idx. (map (\<lambda>i. map EXI t ! i) idx, map (\<lambda>i. map Age_yr_b2k t ! i) idx))
             [ecc_max run, ecc_min run, obl_max run, obl_min run, prec_max run, prec_min run]"
    by (simp add: run)
  show "saved run = [out_base @ ''.jpg'', out_base @ ''.svg'']" by (simp add: run)
qed

lemma insolation_script_Inr:
  assumes "insolation_script iter coerce raw = Inr run"
  shows "\<exists>cols. check_columns iter (robust_read_table raw) = Inr () \<and>
           to_numeric_all coerce (robust_read_table raw)
             [col_age, col_ecc, col_obl, col_omega, col_insol] = Inr cols \<and>
           analyse (transform (make_rows cols)) = Inr run"
  using assms unfolding insolation_script_def Let_def
  by (auto split: sum.splits)

section \<open>The example runs, evaluated\<close>

lemmas col_defs = col_age_def col_ecc_def col_obl_def col_omega_def col_insol_def py_def

lemma example_loaded:
  "robust_read_table example_raw =
     [(col_age, example_cols ! 0), (col_ecc, example_cols ! 1), (col_obl, example_cols ! 2),
      (col_omega, example_cols ! 3), (col_insol, example_cols ! 4)]"
  by (simp add: example_raw_def example_cols_def robust_read_table_def norm_col_def
      replace_char_def strip_def isspace_def BOM_def NBSP_def SPACE_def col_defs)

lemma example_check: "check_columns example_iter (robust_read_table example_raw) = Inr ()"
  unfolding example_loaded
  by (simp add: check_columns_def missing_def df_columns_def example_iter_def col_defs)

lemma example_numeric:
  "to_numeric_all (\<lambda>x. x) (robust_read_table example_raw)
     [col_age, col_ecc, col_obl, col_omega, col_insol] = Inr example_cols"
  unfolding example_loaded
  by (simp add: to_numeric_def getitem_def example_cols_def col_defs)

lemma example_transform: "transform (make_rows example_cols) = example_table"
  by (simp add: example_cols_def example_table_def transform_def window_filter_def
      add_age_yr_b2k_def in_window_def notna_def sort_values_def nan_last_le_def
      ge_const_def le_const_def SHIFT_YEARS_def AGE_MIN_YR_B2K_def AGE_MAX_YR_B2K_def)

lemma example_obl: "scale_obl (map OBL example_table) = [Some (47/2), Some 22, Some 23, Some 24]"
  by (simp add: example_table_def scale_obl_def series_max_def gt_const_def List.map_filter_def)

lemma example_prec:
  "precession (map ECC example_table) (map OMEGA example_table) = [Some 0, Some (1/25), Some 0, Some 0]"
  by (simp add: example_table_def precession_def np_sin_def np_deg2rad_def deg2rad_def fmul_def)

lemmas extrema_eval = get_extrema_idx_def argrelextrema_def boolrelextrema_def
  relextrema_step_def take_clip_def nonzero_def np_greater_def np_less_def Let_def
  EXTREMA_ORDER_def upto_rec1

lemma example_ecc_extrema:
  "get_extrema_idx (map ECC example_table) EXTREMA_ORDER = Inr ([1], [])"
  by (simp add: example_table_def extrema_eval)

lemma example_obl_extrema:
  "get_extrema_idx [Some (47/2), Some 22, Some 23, Some 24] EXTREMA_ORDER = Inr ([], [1])"
  by (simp add: extrema_eval)

lemma example_prec_extrema:
  "get_extrema_idx [Some 0, Some (1/25), Some 0, Some 0] EXTREMA_ORDER = Inr ([1], [])"
  by (simp add: extrema_eval)

lemma example_analyse: "analyse example_table = Inr example_run"
proof -
  have "scatter_all (map EXI example_table) (map Age_yr_b2k example_table)
          [[1], [], [], [1], [1], []] =
        Inr [([Some 450], [Some 140050]), ([], []), ([], []),
                 ([Some 450], [Some 140050]), ([Some 450], [Some 140050]), ([], [])]"
    by (simp add: example_table_def scatter_def iloc_def)
  then show ?thesis
    unfolding analyse_def Let_def example_obl example_prec example_ecc_extrema
      example_obl_extrema example_prec_extrema
    by (simp add: example_run_def out_base_def del: scatter_all.simps)
      (simp add: example_table_def)
qed

lemma example_insolation:
  "insolation_script example_iter (\<lambda>x. x) example_raw = Inr example_run"
  unfolding insolation_script_def Let_def
  by (simp add: example_check example_numeric example_transform example_analyse
      del: to_numeric_all.simps)

lemma interior_extrema_iff:
  "interior_extrema cmp data order idx \<longleftrightarrow>
     sorted idx \<and> distinct idx \<and>
     (\<forall>i. i \<in> set idx \<longleftrightarrow>
        0 < i \<and> i + 1 < length data \<and> strict_local_extremum cmp data order i)"
  unfolding interior_extrema_def strict_local_extremum_def by auto

lemma insolation_script_extrema:
  assumes "insolation_script iter coerce raw = Inr run"
  shows "get_extrema_idx (map ECC (df run)) EXTREMA_ORDER = Inr (ecc_max run, ecc_min run) \<and>
     obl run = scale_obl (map OBL (df run)) \<and>
     get_extrema_idx (obl run) EXTREMA_ORDER = Inr (obl_max run, obl_min run) \<and>
     prec_index run = precession (map ECC (df run)) (map OMEGA (df run)) \<and>
     get_extrema_idx (prec_index run) EXTREMA_ORDER = Inr (prec_max run, prec_min run) \<and>
     (\<forall>idx\<in>set [ecc_max run, ecc_min run, obl_max run, obl_min run, prec_max run, prec_min run].
        \<forall>i\<in>set idx. i < length (df run))"
proof -
  obtain cols where a: "analyse (transform (make_rows cols)) = Inr run"
    using insolation_script_Inr [OF assms] by blast
  show ?thesis
    using analyse_Inr(2-7) [OF a] unfolding analyse_Inr(1) [OF a] by blast
qed

lemma edge_example: "get_extrema_idx [Some 3, Some 1, Some 2] EXTREMA_ORDER = Inr ([], [1])"
  by (simp add: extrema_eval)

lemma edge_example_spec: "strict_local_extremum np_greater [Some 3, Some 1, Some 2] EXTREMA_ORDER 0"
  by (simp add: strict_local_extremum_def np_greater_def EXTREMA_ORDER_def less_Suc_eq
      numeral_3_eq_3 nth_Cons')

section \<open>The stages of the correlation script\<close>

lemma main_Inr:
  assumes "main coerce raw = Inr run"
  shows "\<exists>cols. to_numeric_all coerce (robust_read_table_corr raw)
             [col_age, col_ecc, col_obl, col_omega, col_insol] = Inr cols \<and>
           sub run = subset_corr (make_rows cols)"
    and "age_b2k run = map (\<lambda>r. to_b2k (Age r)) (sub run)"
    and "obl_c run = scale_obl_corr (map OBL (sub run))"
    and "prec_index_c run = precession_corr (map ECC (sub run)) (map OMEGA (sub run))"
    and "figures (plots run) =
           [\<lparr>fig_x = map ECC (sub run), fig_y = map EXI (sub run), fig_c = age_b2k run\<rparr>,
            \<lparr>fig_x = obl_c run, fig_y = map EXI (sub run), fig_c = age_b2k run\<rparr>,
            \<lparr>fig_x = prec_index_c run, fig_y = map EXI (sub run), fig_c = age_b2k run\<rparr>]"
    and "files (plots run) =
           [''corr_insolation_vs_ecc.jpg'', ''corr_insolation_vs_ecc.svg'',
            ''corr_insolation_vs_obliquity.jpg'', ''corr_insolation_vs_obliquity.svg'',
            ''corr_insolation_vs_precession_index.jpg'',
            ''corr_insolation_vs_precession_index.svg'']"
proof -
  obtain cols where c: "to_numeric_all coerce (robust_read_table_corr raw)
             [col_age, col_ecc, col_obl, col_omega, col_insol] = Inr cols"
    using assms unfolding main_def Let_def by (auto split: sum.splits)
  have run: "run = (let s = subset_corr (make_rows cols);
                  age = map (\<lambda>r. to_b2k (Age r)) s;
                  ecc = map ECC s;
                  insol = map EXI s;
                  obl' = scale_obl_corr (map OBL s);
                  prec = precession_corr ecc (map OMEGA s);
                  p1 = scatter_plot ecc insol age ''corr_insolation_vs_ecc''
                         \<lparr>figures = [], files = []\<rparr>;
                  p2 = scatter_plot obl' insol age ''corr_insolation_vs_obliquity'' p1;
                  p3 = scatter_plot prec insol age ''corr_insolation_vs_precession_index'' p2
              in \<lparr>sub = s, age_b2k = age, obl_c = obl', prec_index_c = prec, plots = p3\<rparr>)"
    using assms unfolding main_def Let_def c by simp
  show "\<exists>cols. to_numeric_all coerce (robust_read_table_corr raw)
             [col_age, col_ecc, col_obl, col_omega, col_insol] = Inr cols \<and>
           sub run = subset_corr (make_rows cols)"
    using c by (auto simp: run Let_def)
  show "age_b2k run = map (\<lambda>r. to_b2k (Age r)) (sub run)"
    by (simp add: run Let_def)
  show "obl_c run = scale_obl_corr (map OBL (sub run))"
    by (simp add: run Let_def)
  show "prec_index_c run = precession_corr (map ECC (sub run)) (map OMEGA (sub run))"
    by (simp add: run Let_def)
  show "figures (plots run) =
           [\<lparr>fig_x = map ECC (sub run), fig_y = map EXI (sub run), fig_c = age_b2k run\<rparr>,
            \<lparr>fig_x = obl_c run, fig_y = map EXI (sub run), fig_c = age_b2k run\<rparr>,
            \<lparr>fig_x = prec_index_c run, fig_y = map EXI (sub run), fig_c = age_b2k run\<rparr>]"
    by (simp add: run Let_def scatter_plot_def export_figure_def)
  show "files (plots run) =
           [''corr_insolation_vs_ecc.jpg'', ''corr_insolation_vs_ecc.svg'',
            ''corr_insolation_vs_obliquity.jpg'', ''corr_insolation_vs_obliquity.svg'',
            ''corr_insolation_vs_precession_index.jpg'',
            ''corr_insolation_vs_precession_index.svg'']"
    by (simp add: run Let_def scatter_plot_def export_figure_def)
qed

lemma main_returns:
  "to_numeric_all coerce (robust_read_table_corr raw)
     [col_age, col_ecc, col_obl, col_omega, col_insol] = Inr cols \<Longrightarrow>
   \<exists>run. main coerce raw = Inr run"
  unfolding main_def Let_def by simp

lemma main_Inl:
  "to_numeric_all coerce (robust_read_table_corr raw)
     [col_age, col_ecc, col_obl, col_omega, col_insol] = Inl e \<Longrightarrow>
   main coerce raw = Inl e"
  unfolding main_def Let_def by simp

lemma example_loaded_corr:
  "robust_read_table_corr example_raw =
     [(col_age, example_cols ! 0), (col_ecc, example_cols ! 1), (col_obl, example_cols ! 2),
      (col_omega, example_cols ! 3), (col_insol, example_cols ! 4)]"
  by (simp add: example_raw_def example_cols_def robust_read_table_corr_def
      strip_def isspace_def NBSP_def SPACE_def col_defs)

lemma example_numeric_corr:
  "to_numeric_all (\<lambda>x. x) (robust_read_table_corr example_raw)
     [col_age, col_ecc, col_obl, col_omega, col_insol] = Inr example_cols"
  unfolding example_loaded_corr
  by (simp add: to_numeric_def getitem_def example_cols_def col_defs)

lemma example_subset: "subset_corr (make_rows example_cols) = example_sub"
  by (simp add: example_cols_def example_sub_def subset_corr_def in_window_bp_def
      sort_values_def nan_last_le_def ge_const_def le_const_def age_min_bp_def age_max_bp_def
      AGE_MIN_B2K_def AGE_MAX_B2K_def SHIFT_KA_def SHIFT_YEARS_corr_def)

lemma example_main: "main (\<lambda>x. x) example_raw = Inr example_corr"
  unfolding main_def Let_def example_numeric_corr
  by (simp add: example_subset)
    (simp add: example_sub_def example_corr_def to_b2k_def SHIFT_KA_def SHIFT_YEARS_corr_def
      scale_obl_corr_def series_max_def gt_const_def List.map_filter_def
      precession_corr_def np_sin_def np_deg2rad_def deg2rad_def fmul_def
      scatter_plot_def export_figure_def)

lemma window_filter_eq:
  "window_filter rows =
     filter (\<lambda>r. \<exists>v. Age_yr_b2k r = Some v \<and> 128000 \<le> v \<and> v \<le> 220000) rows"
  unfolding window_filter_def
  by (rule filter_cong)
    (auto simp: in_window_def ge_const_def le_const_def AGE_MIN_YR_B2K_def AGE_MAX_YR_B2K_def
      split: option.splits)

lemma in_window_bp_iff:
  "in_window_bp r \<longleftrightarrow> (\<exists>a. Age r = Some a \<and> 115 - 5/100 \<le> a \<and> a \<le> 250 - 5/100)"
  by (auto simp: in_window_bp_def ge_const_def le_const_def age_min_bp_def age_max_bp_def
      AGE_MIN_B2K_def AGE_MAX_B2K_def SHIFT_KA_def SHIFT_YEARS_corr_def split: option.splits)

lemma in_window_bp_b2k:
  "in_window_bp r \<longleftrightarrow> (\<exists>b. to_b2k (Age r) = Some b \<and> 115 \<le> b \<and> b \<le> 250)"
  unfolding in_window_bp_iff
  by (cases "Age r") (auto simp: to_b2k_def SHIFT_KA_def SHIFT_YEARS_corr_def)

lemma to_b2k_eq: "to_b2k a = map_option (\<lambda>v. v + 5/100) a"
  by (simp add: to_b2k_def SHIFT_KA_def SHIFT_YEARS_corr_def)

lemma age_yr_b2k_eq:
  "Age_yr_b2k (add_age_yr_b2k r) = map_option (\<lambda>a. a * 1000 + 50) (Age r)"
  by (simp add: add_age_yr_b2k_def SHIFT_YEARS_def)

lemma conversions_agree:
  "map_option (\<lambda>b. b * 1000) (to_b2k (Age r)) = Age_yr_b2k (add_age_yr_b2k r)"
  by (cases "Age r") (simp_all add: to_b2k_eq age_yr_b2k_eq algebra_simps)

lemma insolation_script_table:
  assumes "insolation_script iter coerce raw = Inr run"
  shows "\<exists>cols. to_numeric_all coerce (robust_read_table raw)
             [col_age, col_ecc, col_obl, col_omega, col_insol] = Inr cols \<and>
           df run = transform (make_rows cols)"
proof -
  obtain cols where c: "to_numeric_all coerce (robust_read_table raw)
             [col_age, col_ecc, col_obl, col_omega, col_insol] = Inr cols"
    and a: "analyse (transform (make_rows cols)) = Inr run"
    using insolation_script_Inr [OF assms] by blast
  from c analyse_Inr(1) [OF a] show ?thesis by blast
qed

section \<open>Column checks and numeric conversion\<close>

lemma set_required: "set required = needed"
  by (simp add: required_def needed_def)

lemma length_getitem: "length (getitem tbl c) = count_list (df_columns tbl) c"
  by (induction tbl) (auto simp: getitem_def df_columns_def)

lemma getitem_Nil_iff: "getitem tbl c = [] \<longleftrightarrow> c \<notin> set (df_columns tbl)"
  by (induction tbl) (auto simp: getitem_def df_columns_def)

lemma to_numeric_absent:
  "c \<notin> set (df_columns tbl) \<Longrightarrow> to_numeric coerce tbl c = Inl (KeyError c)"
  using getitem_Nil_iff [of tbl c] by (simp add: to_numeric_def)

lemma to_numeric_once:
  assumes "count_list (df_columns tbl) c = 1"
  shows "\<exists>s. to_numeric coerce tbl c = Inr s"
proof -
  from assms have "length (getitem tbl c) = 1" by (simp add: length_getitem)
  then obtain s where "getitem tbl c = [s]"
    by (cases "getitem tbl c") auto
  then show ?thesis by (simp add: to_numeric_def)
qed

lemma to_numeric_Inl:
  assumes "to_numeric coerce tbl c = Inl e"
  shows "(e = KeyError c \<and> c \<notin> set (df_columns tbl)) \<or>
         (e = TypeError \<and> 1 < count_list (df_columns tbl) c)"
proof (cases "getitem tbl c")
  case Nil
  then show ?thesis
    using assms getitem_Nil_iff [of tbl c] by (simp add: to_numeric_def)
next
  case (Cons s ss)
  with assms have "ss \<noteq> []" and "e = TypeError"
    by (auto simp: to_numeric_def split: list.splits)
  with Cons length_getitem [of tbl c] show ?thesis
    by (cases ss) auto
qed

lemma to_numeric_all_Inl:
  "to_numeric_all coerce tbl cs = Inl e \<Longrightarrow>
   (\<exists>c\<in>set cs. e = KeyError c \<and> c \<notin> set (df_columns tbl)) \<or>
   (e = TypeError \<and> (\<exists>c\<in>set cs. 1 < count_list (df_columns tbl) c))"
proof (induction cs)
  case Nil
  then show ?case by simp
next
  case (Cons c cs)
  show ?case
  proof (cases "to_numeric coerce tbl c")
    case (Inl e')
    with Cons.prems have "e' = e" by simp
    with Inl to_numeric_Inl [of coerce tbl c e] show ?thesis by auto
  next
    case (Inr s)
    with Cons.prems have "to_numeric_all coerce tbl cs = Inl e"
      by (simp split: sum.splits)
    from Cons.IH [OF this] show ?thesis by auto
  qed
qed


lemma to_numeric_all_once:
  "\<forall>c\<in>set cs. count_list (df_columns tbl) c = 1 \<Longrightarrow>
   \<exists>cols. to_numeric_all coerce tbl cs = Inr cols"
proof (induction cs)
  case Nil
  then show ?case by simp
next
  case (Cons c cs)
  then obtain s where "to_numeric coerce tbl c = Inr s"
    using to_numeric_once [of tbl c coerce] by auto
  moreover obtain cols where "to_numeric_all coerce tbl cs = Inr cols"
    using Cons by auto
  ultimately show ?case by simp
qed

lemma missing_Nil_iff: "missing iter tbl = [] \<longleftrightarrow> set iter \<subseteq> set (df_columns tbl)"
  by (auto simp: missing_def filter_empty_conv)



lemma check_columns_Inr_iff:
  "check_columns iter tbl = Inr u \<longleftrightarrow> set iter \<subseteq> set (df_columns tbl)"
  using missing_Nil_iff [of iter tbl] by (simp add: check_columns_def)

lemma check_columns_Inl_iff:
  "check_columns iter tbl = Inl e \<longleftrightarrow>
     \<not> set iter \<subseteq> set (df_columns tbl) \<and> e = ValueError (missing iter tbl) (df_columns tbl)"
  using missing_Nil_iff [of iter tbl] by (auto simp: check_columns_def)

lemma insolation_script_missing:
  assumes "\<not> set iter \<subseteq> set (df_columns (robust_read_table raw))"
  shows "insolation_script iter coerce raw =
           Inl (ValueError (missing iter (robust_read_table raw)) (df_columns (robust_read_table raw)))"
proof -
  have "check_columns iter (robust_read_table raw) =
          Inl (ValueError (missing iter (robust_read_table raw)) (df_columns (robust_read_table raw)))"
    using assms by (simp add: check_columns_Inl_iff)
  then show ?thesis
    by (simp add: insolation_script_def Let_def)
qed

lemma insolation_script_checked:
  assumes "set iter \<subseteq> set (df_columns (robust_read_table raw))"
  shows "insolation_script iter coerce raw =
           (case to_numeric_all coerce (robust_read_table raw) required of
              Inl e \<Rightarrow> Inl e
            | Inr cols \<Rightarrow> analyse (transform (make_rows cols)))"
proof -
  have "check_columns iter (robust_read_table raw) = Inr ()"
    using assms by (simp add: check_columns_Inr_iff)
  then show ?thesis
    by (simp add: insolation_script_def Let_def required_def)
qed

lemma insolation_script_Inl:
  assumes "insolation_script iter coerce raw = Inl e"
  shows "(\<not> set iter \<subseteq> set (df_columns (robust_read_table raw)) \<and>
          e = ValueError (missing iter (robust_read_table raw)) (df_columns (robust_read_table raw))) \<or>
         (set iter \<subseteq> set (df_columns (robust_read_table raw)) \<and>
          (\<exists>c\<in>needed. e = KeyError c \<and> c \<notin> set (df_columns (robust_read_table raw)))) \<or>
         (set iter \<subseteq> set (df_columns (robust_read_table raw)) \<and> e = TypeError \<and>
          (\<exists>c\<in>needed. 1 < count_list (df_columns (robust_read_table raw)) c))"
proof (cases "set iter \<subseteq> set (df_columns (robust_read_table raw))")
  case False
  with assms insolation_script_missing [OF False, of coerce] show ?thesis by simp
next
  case True
  note s = insolation_script_checked [OF True, of coerce]
  show ?thesis
  proof (cases "to_numeric_all coerce (robust_read_table raw) required")
    case (Inl e')
    with s assms have "e' = e" by simp
    with Inl to_numeric_all_Inl [of coerce "robust_read_table raw" required e] True
    show ?thesis unfolding set_required by blast
  next
    case (Inr cols)
    with s assms have "analyse (transform (make_rows cols)) = Inl e" by simp
    with analyse_returns [of "transform (make_rows cols)"] show ?thesis by auto
  qed
qed











lemma main_Inl_cases:
  assumes "main coerce raw = Inl e"
  shows "(\<exists>c\<in>needed. e = KeyError c \<and> c \<notin> set (df_columns (robust_read_table_corr raw))) \<or>
         (e = TypeError \<and> (\<exists>c\<in>needed. 1 < count_list (df_columns (robust_read_table_corr raw)) c))"
proof (cases "to_numeric_all coerce (robust_read_table_corr raw) required")
  case (Inl e')
  from main_Inl [of coerce raw e'] Inl have "main coerce raw = Inl e'"
    by (simp add: required_def)
  with assms have "e' = e" by simp
  with Inl to_numeric_all_Inl [of coerce "robust_read_table_corr raw" required e]
  show ?thesis unfolding set_required by blast
next
  case (Inr cols)
  from main_returns [of coerce raw cols] Inr assms show ?thesis
    by (auto simp: required_def)
qed


lemma main_once:
  assumes "\<forall>c\<in>needed. count_list (df_columns (robust_read_table_corr raw)) c = 1"
  shows "\<exists>run. main coerce raw = Inr run"
proof -
  obtain cols where "to_numeric_all coerce (robust_read_table_corr raw) required = Inr cols"
    using to_numeric_all_once [of required "robust_read_table_corr raw" coerce] assms
    unfolding set_required by blast
  then show ?thesis
    using main_returns [of coerce raw cols] by (simp add: required_def)
qed

lemma example_short_main: "main (\<lambda>x. x) example_short = Inl (KeyError col_omega)"
proof -
  have "robust_read_table_corr example_short =
          [(col_age, [Some 150]), (col_ecc, [Some (3/100)]), (col_obl, [Some 23000])]"
    by (simp add: example_short_def robust_read_table_corr_def strip_def isspace_def col_defs)
  then have "to_numeric_all (\<lambda>x. x) (robust_read_table_corr example_short)
      [col_age, col_ecc, col_obl, col_omega, col_insol] = Inl (KeyError col_omega)"
    by (simp add: to_numeric_def getitem_def col_defs)
  then show ?thesis by (rule main_Inl)
qed





section \<open>The first column that fails\<close>

lemma absent_iff_count: "c \<notin> set cols \<longleftrightarrow> count_list cols c = 0"
  by (simp add: count_list_0_iff)

lemma to_numeric_twice:
  assumes "1 < count_list (df_columns tbl) c"
  shows "to_numeric coerce tbl c = Inl TypeError"
proof -
  from assms have "1 < length (getitem tbl c)" by (simp add: length_getitem)
  then obtain s s' ss where "getitem tbl c = s # s' # ss"
    by (cases "getitem tbl c"; cases "tl (getitem tbl c)") auto
  then show ?thesis by (simp add: to_numeric_def)
qed

lemma first_failure_Nil: "\<not> first_failure cols [] e"
  by (simp add: first_failure_def)

lemma first_failure_Cons:
  "first_failure cols (c # cs) e \<longleftrightarrow>
     (c \<notin> set cols \<and> e = KeyError c) \<or> (1 < count_list cols c \<and> e = TypeError) \<or>
     (count_list cols c = 1 \<and> first_failure cols cs e)"
proof
  assume "first_failure cols (c # cs) e"
  then obtain pre c' post where d: "c # cs = pre @ c' # post"
      "\<forall>d\<in>set pre. count_list cols d = 1"
      "(c' \<notin> set cols \<and> e = KeyError c') \<or> (1 < count_list cols c' \<and> e = TypeError)"
    unfolding first_failure_def by blast
  show "(c \<notin> set cols \<and> e = KeyError c) \<or> (1 < count_list cols c \<and> e = TypeError) \<or>
     (count_list cols c = 1 \<and> first_failure cols cs e)"
  proof (cases pre)
    case Nil
    with d(1) have "c' = c" by simp
    with d(3) show ?thesis by blast
  next
    case (Cons p pre')
    with d(1) have "p = c" and "cs = pre' @ c' # post" by simp_all
    with d(2,3) Cons have "count_list cols c = 1" and "first_failure cols cs e"
      unfolding first_failure_def by auto
    then show ?thesis by blast
  qed
next
  assume a: "(c \<notin> set cols \<and> e = KeyError c) \<or> (1 < count_list cols c \<and> e = TypeError) \<or>
     (count_list cols c = 1 \<and> first_failure cols cs e)"
  show "first_failure cols (c # cs) e"
  proof (cases "count_list cols c = 1 \<and> first_failure cols cs e")
    case True
    then obtain pre c' post where d: "cs = pre @ c' # post"
      "\<forall>d\<in>set pre. count_list cols d = 1"
      "(c' \<notin> set cols \<and> e = KeyError c') \<or> (1 < count_list cols c' \<and> e = TypeError)"
      unfolding first_failure_def by blast
    have "c # cs = (c # pre) @ c' # post" using d(1) by simp
    moreover have "\<forall>d\<in>set (c # pre). count_list cols d = 1" using d(2) True by simp
    ultimately show ?thesis
      unfolding first_failure_def using d(3) by blast
  next
    case False
    with a have "(c \<notin> set cols \<and> e = KeyError c) \<or> (1 < count_list cols c \<and> e = TypeError)"
      by blast
    then have "c # cs = [] @ c # cs \<and> (\<forall>d\<in>set []. count_list cols d = 1) \<and>
        ((c \<notin> set cols \<and> e = KeyError c) \<or> (1 < count_list cols c \<and> e = TypeError))"
      by simp
    then show ?thesis
      unfolding first_failure_def by (intro exI)
  qed
qed

lemma to_numeric_all_Inl_iff:
  "to_numeric_all coerce tbl cs = Inl e \<longleftrightarrow> first_failure (df_columns tbl) cs e"
proof (induction cs)
  case Nil
  then show ?case by (simp add: first_failure_Nil)
next
  case (Cons c cs)
  consider (absent) "c \<notin> set (df_columns tbl)"
    | (once) "count_list (df_columns tbl) c = 1"
    | (twice) "1 < count_list (df_columns tbl) c"
    using absent_iff_count [of c "df_columns tbl"] by linarith
  then show ?case
  proof cases
    case absent
    then have "count_list (df_columns tbl) c = 0"
      by (simp add: absent_iff_count)
    with absent show ?thesis
      unfolding first_failure_Cons by (auto simp: to_numeric_absent)
  next
    case once
    then obtain s where s: "to_numeric coerce tbl c = Inr s"
      using to_numeric_once [of tbl c coerce] by blast
    from once have "c \<in> set (df_columns tbl)"
      using absent_iff_count [of c "df_columns tbl"] by simp
    with once s Cons.IH show ?thesis
      unfolding first_failure_Cons by (auto split: sum.splits)
  next
    case twice
    then have "c \<in> set (df_columns tbl)"
      using absent_iff_count [of c "df_columns tbl"] by simp
    with twice show ?thesis
      unfolding first_failure_Cons by (auto simp: to_numeric_twice)
  qed
qed




lemma main_Inl_iff:
  "main coerce raw = Inl e \<longleftrightarrow> first_failure (df_columns (robust_read_table_corr raw)) required e"
proof (cases "to_numeric_all coerce (robust_read_table_corr raw) required")
  case (Inl e')
  then have "main coerce raw = Inl e'"
    using main_Inl [of coerce raw e'] by (simp add: required_def)
  with Inl show ?thesis
    using to_numeric_all_Inl_iff [of coerce "robust_read_table_corr raw" required e] by auto
next
  case (Inr cols)
  then obtain run where "main coerce raw = Inr run"
    using main_returns [of coerce raw cols] by (auto simp: required_def)
  with Inr show ?thesis
    using to_numeric_all_Inl_iff [of coerce "robust_read_table_corr raw" required e] by auto
qed










lemma example_short_first_failure:
  "first_failure (df_columns (robust_read_table_corr example_short)) required (KeyError col_omega)"
  using example_short_main by (simp add: main_Inl_iff)

section \<open>Sorting and the maximum of a series\<close>

lemma set_insert_row: "set (insert_row key r xs) = insert r (set xs)"
  by (induction xs) auto

lemma mset_insert_row: "mset (insert_row key r xs) = add_mset r (mset xs)"
  by (induction xs) auto

lemma mset_sort_values: "mset (sort_values key xs) = mset xs"
  by (induction xs) (simp_all add: sort_values_def mset_insert_row)

lemma set_sort_values: "set (sort_values key xs) = set xs"
  using mset_sort_values [of key xs] by (metis set_mset_mset)

lemma nan_last_le_total: "nan_last_le a b \<or> nan_last_le b a"
  by (auto simp: nan_last_le_def split: option.splits)

lemma nan_last_le_trans: "nan_last_le a b \<Longrightarrow> nan_last_le b c \<Longrightarrow> nan_last_le a c"
  by (auto simp: nan_last_le_def split: option.splits)

lemma sorted_insert_row:
  "sorted_wrt (\<lambda>a b. nan_last_le (key a) (key b)) xs \<Longrightarrow>
   sorted_wrt (\<lambda>a b. nan_last_le (key a) (key b)) (insert_row key r xs)"
proof (induction xs)
  case Nil
  then show ?case by simp
next
  case (Cons x xs)
  show ?case
  proof (cases "nan_last_le (key r) (key x)")
    case True
    with Cons.prems show ?thesis
      by (auto intro: nan_last_le_trans)
  next
    case False
    then have "nan_last_le (key x) (key r)"
      using nan_last_le_total by blast
    with False Cons show ?thesis
      by (auto simp: set_insert_row)
  qed
qed

lemma sorted_sort_values:
  "sorted_wrt (\<lambda>a b. nan_last_le (key a) (key b)) (sort_values key xs)"
  by (induction xs) (simp_all add: sort_values_def sorted_insert_row)

lemma sorted_Some_keys:
  "sorted_wrt (\<lambda>a b. nan_last_le (key a) (key b)) xs \<Longrightarrow> \<forall>r\<in>set xs. key r \<noteq> None \<Longrightarrow>
   \<exists>ks. map key xs = map Some ks \<and> sorted ks"
proof (induction xs)
  case Nil
  then show ?case by simp
next
  case (Cons x xs)
  then obtain ks where ks: "map key xs = map Some ks" "sorted ks"
    by auto
  from Cons.prems(2) obtain k where k: "key x = Some k"
    by auto
  have "k \<le> k'" if "k' \<in> set ks" for k'
  proof -
    from that have "Some k' \<in> set (map key xs)"
      by (simp add: ks(1))
    then obtain r where "r \<in> set xs" "key r = Some k'"
      by auto
    with Cons.prems(1) k show ?thesis
      by (auto simp: nan_last_le_def)
  qed
  with ks k have "map key (x # xs) = map Some (k # ks) \<and> sorted (k # ks)"
    by auto
  then show ?case by blast
qed

lemma set_map_filter_id: "set (List.map_filter (\<lambda>x. x) xs) = {v. Some v \<in> set xs}"
  by (induction xs) (auto split: option.splits)

lemma series_max_None: "series_max xs = None \<longleftrightarrow> (\<forall>v. Some v \<notin> set xs)"
proof -
  have "set (List.map_filter (\<lambda>x. x) xs) = {v. Some v \<in> set xs}"
    by (rule set_map_filter_id)
  then show ?thesis
    by (cases "List.map_filter (\<lambda>x. x) xs") (auto simp: series_max_def)
qed

lemma series_max_Some:
  assumes "series_max xs = Some m"
  shows "Some m \<in> set xs \<and> (\<forall>v. Some v \<in> set xs \<longrightarrow> v \<le> m)"
proof -
  have s: "set (List.map_filter (\<lambda>x. x) xs) = {v. Some v \<in> set xs}"
    by (rule set_map_filter_id)
  from assms obtain v vs where vs: "List.map_filter (\<lambda>x. x) xs = v # vs" and m: "m = fold max vs v"
    by (cases "List.map_filter (\<lambda>x. x) xs") (auto simp: series_max_def)
  have "m = Max (set (v # vs))"
    unfolding m by (rule Max.set_eq_fold [symmetric])
  then have "m \<in> set (v # vs) \<and> (\<forall>u\<in>set (v # vs). u \<le> m)"
    by (metis List.finite_set Max_ge Max_in list.distinct(1) set_empty)
  then show ?thesis
    unfolding vs [symmetric] s by simp
qed

lemma gt_series_max: "gt_const (series_max xs) c \<longleftrightarrow> (\<exists>v. Some v \<in> set xs \<and> c < v)"
proof (cases "series_max xs")
  case None
  then show ?thesis
    using series_max_None [of xs] by (simp add: gt_const_def)
next
  case (Some m)
  from series_max_Some [OF this] Some show ?thesis
    by (auto simp: gt_const_def)
qed

lemma precession_rows:
  "precession (map ECC t) (map OMEGA t) = map (\<lambda>r. row_prec_index (ECC r) (OMEGA r)) t"
  by (induction t)
    (auto simp: precession_def np_sin_def np_deg2rad_def deg2rad_def fmul_def
      row_prec_index_def spec_prec_index_def split: option.splits)

lemma precession_corr_eq: "precession_corr ecc omega = precession ecc omega"
  by (simp add: precession_corr_def precession_def)

lemma scale_obl_corr_eq: "scale_obl_corr xs = scale_obl xs"
  by (simp add: scale_obl_corr_def scale_obl_def)

lemma scale_obl_eq:
  "scale_obl xs =
     (if \<exists>v. Some v \<in> set xs \<and> 100 < v then map (map_option (\<lambda>v. v / 1000)) xs else xs)"
  by (simp add: scale_obl_def gt_series_max)

lemma insolation_script_series:
  assumes "insolation_script iter coerce raw = Inr run"
  shows "obl run = scale_obl (map OBL (df run))"
    and "prec_index run = precession (map ECC (df run)) (map OMEGA (df run))"
    and "saved run = [out_base @ ''.jpg'', out_base @ ''.svg'']"
    and "analyse (df run) = Inr run"
proof -
  obtain cols where a: "analyse (transform (make_rows cols)) = Inr run"
    using insolation_script_Inr [OF assms] by blast
  note d = analyse_Inr(1) [OF a]
  show "obl run = scale_obl (map OBL (df run))"
    using analyse_Inr(2) [OF a] by (simp add: d)
  show "prec_index run = precession (map ECC (df run)) (map OMEGA (df run))"
    using analyse_Inr(3) [OF a] by (simp add: d)
  show "saved run = [out_base @ ''.jpg'', out_base @ ''.svg'']"
    by (rule analyse_Inr(10) [OF a])
  show "analyse (df run) = Inr run"
    using a by (simp add: d)
qed

section \<open>The table after the transform stage\<close>

lemma transform_rows:
  "r \<in> set (transform rows) \<longleftrightarrow>
     r \<in> set (map add_age_yr_b2k rows) \<and> in_window r \<and> notna r"
  by (auto simp: transform_def set_sort_values window_filter_def)

lemma transform_sorted:
  "\<exists>ages. map Age_yr_b2k (transform rows) = map Some ages \<and> sorted ages"
proof (rule sorted_Some_keys)
  show "sorted_wrt (\<lambda>a b. nan_last_le (Age_yr_b2k a) (Age_yr_b2k b)) (transform rows)"
    unfolding transform_def by (rule sorted_sort_values)
  show "\<forall>r\<in>set (transform rows). Age_yr_b2k r \<noteq> None"
    by (simp add: transform_rows notna_def)
qed

lemma transform_invariant:
  "\<exists>ages. map Age_yr_b2k (transform rows) = map Some ages \<and> sorted ages \<and>
     (\<forall>a\<in>set ages. 128000 \<le> a \<and> a \<le> 220000)"
proof -
  obtain ages where a: "map Age_yr_b2k (transform rows) = map Some ages" "sorted ages"
    using transform_sorted by blast
  have "128000 \<le> v \<and> v \<le> 220000" if "v \<in> set ages" for v
  proof -
    from that have "Some v \<in> set (map Age_yr_b2k (transform rows))"
      by (simp add: a(1))
    then obtain r where "r \<in> set (transform rows)" "Age_yr_b2k r = Some v"
      by auto
    then show ?thesis
      by (auto simp: transform_rows in_window_def ge_const_def le_const_def
          AGE_MIN_YR_B2K_def AGE_MAX_YR_B2K_def)
  qed
  with a show ?thesis by blast
qed

lemma transform_notna:
  "\<forall>r\<in>set (transform rows).
     Age_yr_b2k r \<noteq> None \<and> EXI r \<noteq> None \<and> ECC r \<noteq> None \<and> OBL r \<noteq> None \<and> OMEGA r \<noteq> None \<and>
     Age_yr_b2k r = map_option (\<lambda>a. a * 1000 + 50) (Age r)"
  by (auto simp: transform_rows notna_def add_age_yr_b2k_def SHIFT_YEARS_def)

lemma transform_mset:
  "mset (transform rows) =
     filter_mset (\<lambda>r. in_window r \<and> notna r) (mset (map add_age_yr_b2k rows))"
  by (simp add: transform_def mset_sort_values window_filter_def conj_commute)

lemma subset_corr_rows: "r \<in> set (subset_corr rows) \<longleftrightarrow> r \<in> set rows \<and> in_window_bp r"
  by (auto simp: subset_corr_def set_sort_values)

lemma subset_corr_invariant:
  "\<exists>ages. map Age (subset_corr rows) = map Some ages \<and> sorted ages \<and>
     (\<forall>a\<in>set ages. age_min_bp \<le> a \<and> a \<le> age_max_bp)"
proof -
  have "\<exists>ages. map Age (subset_corr rows) = map Some ages \<and> sorted ages"
  proof (rule sorted_Some_keys)
    show "sorted_wrt (\<lambda>a b. nan_last_le (Age a) (Age b)) (subset_corr rows)"
      unfolding subset_corr_def by (rule sorted_sort_values)
    show "\<forall>r\<in>set (subset_corr rows). Age r \<noteq> None"
      by (auto simp: subset_corr_rows in_window_bp_def ge_const_def split: option.splits)
  qed
  then obtain ages where a: "map Age (subset_corr rows) = map Some ages" "sorted ages"
    by blast
  have "age_min_bp \<le> v \<and> v \<le> age_max_bp" if "v \<in> set ages" for v
  proof -
    from that have "Some v \<in> set (map Age (subset_corr rows))"
      by (simp add: a(1))
    then obtain r where "r \<in> set (subset_corr rows)" "Age r = Some v"
      by auto
    then show ?thesis
      by (auto simp: subset_corr_rows in_window_bp_def ge_const_def le_const_def)
  qed
  with a show ?thesis by blast
qed

lemma b2k_window:
  "age_min_bp \<le> a \<and> a \<le> age_max_bp \<longleftrightarrow> 115 \<le> a + 5/100 \<and> a + 5/100 \<le> 250"
  by (auto simp: age_min_bp_def age_max_bp_def AGE_MIN_B2K_def AGE_MAX_B2K_def SHIFT_KA_def
      SHIFT_YEARS_corr_def)

lemma sorted_shift: "sorted ages \<Longrightarrow> sorted (map (\<lambda>a. a + c) ages)" for c :: real
  by (induction ages) auto

section \<open>The claims\<close>



text \<open>
  C1 (as amended). For every series, \<open>get_extrema_idx\<close> with the script's window
  (\<open>EXTREMA_ORDER = 3\<close>) returns, in ascending order and without repetition, exactly the
  positions that are neither the first nor the last of the series and whose value is
  strictly greater (maxima), or strictly less (minima), than every value at distance 1
  to 3 within the array bounds. In a run of the insolation script that reaches its end,
  the three pairs of extrema are those of the eccentricity column, of the scaled
  obliquity and of the precession index of the sorted, filtered table (the insolation
  column is no argument), and every index returned is a position of that table.
\<close>

theorem extrema_are_interior_strict_extrema:
  "(\<exists>mx mn. get_extrema_idx arr EXTREMA_ORDER = Inr (mx, mn) \<and>
      sorted mx \<and> distinct mx \<and> sorted mn \<and> distinct mn \<and>
      (\<forall>i. i \<in> set mx \<longleftrightarrow>
         0 < i \<and> i + 1 < length arr \<and> strict_local_extremum np_greater arr EXTREMA_ORDER i) \<and>
      (\<forall>i. i \<in> set mn \<longleftrightarrow>
         0 < i \<and> i + 1 < length arr \<and> strict_local_extremum np_less arr EXTREMA_ORDER i)) \<and>
   (insolation_script iter coerce raw = Inr run \<longrightarrow>
      get_extrema_idx (map ECC (df run)) EXTREMA_ORDER = Inr (ecc_max run, ecc_min run) \<and>
      obl run = scale_obl (map OBL (df run)) \<and>
      get_extrema_idx (obl run) EXTREMA_ORDER = Inr (obl_max run, obl_min run) \<and>
      prec_index run = precession (map ECC (df run)) (map OMEGA (df run)) \<and>
      get_extrema_idx (prec_index run) EXTREMA_ORDER = Inr (prec_max run, prec_min run) \<and>
      (\<forall>idx\<in>set [ecc_max run, ecc_min run, obl_max run, obl_min run, prec_max run, prec_min run].
         \<forall>i\<in>set idx. i < length (df run)))"
proof -
  obtain mx mn where g: "get_extrema_idx arr EXTREMA_ORDER = Inr (mx, mn)"
      "interior_extrema np_greater arr EXTREMA_ORDER mx"
      "interior_extrema np_less arr EXTREMA_ORDER mn"
    using get_extrema_idx_char [OF EXTREMA_ORDER_ge1, of arr] by blast
  have "\<exists>mx mn. get_extrema_idx arr EXTREMA_ORDER = Inr (mx, mn) \<and>
      sorted mx \<and> distinct mx \<and> sorted mn \<and> distinct mn \<and>
      (\<forall>i. i \<in> set mx \<longleftrightarrow>
         0 < i \<and> i + 1 < length arr \<and> strict_local_extremum np_greater arr EXTREMA_ORDER i) \<and>
      (\<forall>i. i \<in> set mn \<longleftrightarrow>
         0 < i \<and> i + 1 < length arr \<and> strict_local_extremum np_less arr EXTREMA_ORDER i)"
    using g unfolding interior_extrema_iff by blast
  then show ?thesis
    using insolation_script_extrema [of iter coerce raw run] by blast
qed

theorem extrema_are_interior_strict_extrema_witness:
  "get_extrema_idx [Some 3, Some 1, Some 2] EXTREMA_ORDER = Inr ([], [1]) \<and>
   strict_local_extremum np_less [Some 3, Some 1, Some 2] EXTREMA_ORDER 1 \<and>
   insolation_script example_iter (\<lambda>x. x) example_raw = Inr example_run \<and>
   get_extrema_idx (map ECC (df example_run)) EXTREMA_ORDER = Inr ([1], []) \<and>
   get_extrema_idx (obl example_run) EXTREMA_ORDER = Inr ([], [1]) \<and>
   get_extrema_idx (prec_index example_run) EXTREMA_ORDER = Inr ([1], []) \<and>
   length (df example_run) = 4"
proof -
  note t = extrema_are_interior_strict_extrema
    [of "[Some 3, Some 1, Some 2]" example_iter "\<lambda>x. x" example_raw example_run]
  from t obtain mx mn where
    g: "get_extrema_idx [Some 3, Some 1, Some 2] EXTREMA_ORDER = Inr (mx, mn)" and
    m: "\<And>i. i \<in> set mn \<longleftrightarrow> 0 < i \<and> i + 1 < length [Some (3::real), Some 1, Some 2] \<and>
          strict_local_extremum np_less [Some 3, Some 1, Some 2] EXTREMA_ORDER i"
    by blast
  from g edge_example have "mn = [1]" by simp
  with m [of 1] have 1: "strict_local_extremum np_less [Some 3, Some 1, Some 2] EXTREMA_ORDER 1"
    by simp
  from t example_insolation have
    2: "get_extrema_idx (map ECC (df example_run)) EXTREMA_ORDER =
          Inr (ecc_max example_run, ecc_min example_run)" and
    3: "get_extrema_idx (obl example_run) EXTREMA_ORDER =
          Inr (obl_max example_run, obl_min example_run)" and
    4: "get_extrema_idx (prec_index example_run) EXTREMA_ORDER =
          Inr (prec_max example_run, prec_min example_run)"
    by blast+
  have 5: "ecc_max example_run = [1]" "ecc_min example_run = []"
    "obl_max example_run = []" "obl_min example_run = [1]"
    "prec_max example_run = [1]" "prec_min example_run = []"
    "length (df example_run) = 4"
    by (simp_all add: example_run_def example_table_def)
  show ?thesis
    using edge_example 1 example_insolation 2 3 4 unfolding 5 by blast
qed

text \<open>
  The claim as stated fails at the ends of the series: in \<open>[3, 1, 2]\<close> the first value is
  strictly greater than both others (all of its neighbours within the bounds), and is
  not returned as a maximum.
\<close>

theorem edge_maximum_is_not_returned:
  "strict_local_extremum np_greater [Some 3, Some 1, Some 2] EXTREMA_ORDER 0 \<and>
   get_extrema_idx [Some 3, Some 1, Some 2] EXTREMA_ORDER = Inr ([], [1])"
  using edge_example edge_example_spec by simp

text \<open>
  C2. The insolation script gives every row the converted age \<open>Age * 1000 + 50\<close> (NaN
  for a NaN age), its window filter keeps exactly the rows whose converted age lies in
  the closed interval from 128000 to 220000, and the table of a run is what sorting and
  dropping incomplete rows leave of that selection. The correlation script filters the
  BP age against the bounds 115 - 0.05 and 250 - 0.05, which keeps exactly the rows whose
  b2k age (the BP age plus 0.05) lies between 115 and 250, and that b2k age in ka is
  the insolation script's converted age divided by 1000.
\<close>

theorem age_conversion_and_window:
  "Age_yr_b2k (add_age_yr_b2k r) = map_option (\<lambda>a. a * 1000 + 50) (Age r) \<and>
   window_filter rows =
     filter (\<lambda>r. \<exists>v. Age_yr_b2k r = Some v \<and> 128000 \<le> v \<and> v \<le> 220000) rows \<and>
   (insolation_script iter coerce raw = Inr run \<longrightarrow>
      (\<exists>cols. to_numeric_all coerce (robust_read_table raw)
                 [col_age, col_ecc, col_obl, col_omega, col_insol] = Inr cols \<and>
         df run = sort_values Age_yr_b2k
                    (filter notna (window_filter (map add_age_yr_b2k (make_rows cols)))))) \<and>
   age_min_bp = 115 - 5/100 \<and> age_max_bp = 250 - 5/100 \<and>
   (in_window_bp s \<longleftrightarrow> (\<exists>a. Age s = Some a \<and> age_min_bp \<le> a \<and> a \<le> age_max_bp)) \<and>
   (in_window_bp s \<longleftrightarrow> (\<exists>b. to_b2k (Age s) = Some b \<and> 115 \<le> b \<and> b \<le> 250)) \<and>
   to_b2k a = map_option (\<lambda>v. v + 5/100) a \<and>
   map_option (\<lambda>b. b * 1000) (to_b2k (Age s)) = Age_yr_b2k (add_age_yr_b2k s) \<and>
   (main coerce' raw' = Inr crun \<longrightarrow>
      (\<exists>cols. to_numeric_all coerce' (robust_read_table_corr raw')
                 [col_age, col_ecc, col_obl, col_omega, col_insol] = Inr cols \<and>
         sub crun = sort_values Age (filter in_window_bp (make_rows cols))) \<and>
      age_b2k crun = map (\<lambda>r. to_b2k (Age r)) (sub crun))"
proof -
  have b: "age_min_bp = 115 - 5/100 \<and> age_max_bp = 250 - 5/100"
    by (simp add: age_min_bp_def age_max_bp_def AGE_MIN_B2K_def AGE_MAX_B2K_def SHIFT_KA_def
        SHIFT_YEARS_corr_def)
  have w: "in_window_bp s \<longleftrightarrow> (\<exists>a. Age s = Some a \<and> age_min_bp \<le> a \<and> a \<le> age_max_bp)"
    unfolding b [THEN conjunct1] b [THEN conjunct2] by (rule in_window_bp_iff)
  have i: "insolation_script iter coerce raw = Inr run \<longrightarrow>
      (\<exists>cols. to_numeric_all coerce (robust_read_table raw)
                 [col_age, col_ecc, col_obl, col_omega, col_insol] = Inr cols \<and>
         df run = sort_values Age_yr_b2k
                    (filter notna (window_filter (map add_age_yr_b2k (make_rows cols)))))"
    using insolation_script_table [of iter coerce raw run] unfolding transform_def by blast
  have m: "main coerce' raw' = Inr crun \<longrightarrow>
      (\<exists>cols. to_numeric_all coerce' (robust_read_table_corr raw')
                 [col_age, col_ecc, col_obl, col_omega, col_insol] = Inr cols \<and>
         sub crun = sort_values Age (filter in_window_bp (make_rows cols))) \<and>
      age_b2k crun = map (\<lambda>r. to_b2k (Age r)) (sub crun)"
    using main_Inr(1,2) [of coerce' raw' crun] unfolding subset_corr_def by blast
  show ?thesis
    using age_yr_b2k_eq [of r] window_filter_eq [of rows] i b w in_window_bp_b2k [of s]
      to_b2k_eq [of a] conversions_agree [of s] m
    by blast
qed

theorem age_conversion_and_window_witness:
  "Age_yr_b2k (add_age_yr_b2k \<lparr>Age = Some 130, ECC = None, OBL = None, OMEGA = None, EXI = None\<rparr>)
     = Some 130050 \<and>
   in_window_bp \<lparr>Age = Some 130, ECC = None, OBL = None, OMEGA = None, EXI = None\<rparr> \<and>
   to_b2k (Some 130) = Some (2601/20) \<and>
   insolation_script example_iter (\<lambda>x. x) example_raw = Inr example_run \<and>
   df example_run = sort_values Age_yr_b2k
      (filter notna (window_filter (map add_age_yr_b2k (make_rows example_cols)))) \<and>
   main (\<lambda>x. x) example_raw = Inr example_corr \<and>
   sub example_corr = sort_values Age (filter in_window_bp (make_rows example_cols)) \<and>
   age_b2k example_corr = map (\<lambda>r. to_b2k (Age r)) (sub example_corr)"
proof -
  define r0 where "r0 = \<lparr>Age = Some (130::real), ECC = None, OBL = None, OMEGA = None, EXI = None\<rparr>"
  note t = age_conversion_and_window
    [of r0 "[]" example_iter "\<lambda>x. x" example_raw example_run r0 "Some 130"
        "\<lambda>x. x" example_raw example_corr]
  have 1: "Age_yr_b2k (add_age_yr_b2k r0) = Some 130050"
    using t by (simp add: r0_def)
  have "to_b2k (Age r0) = Some (2601/20) \<and> 115 \<le> (2601/20::real) \<and> (2601/20::real) \<le> 250"
    by (simp add: r0_def to_b2k_eq)
  then have "\<exists>b. to_b2k (Age r0) = Some b \<and> 115 \<le> b \<and> b \<le> 250"
    by blast
  with t have 2: "in_window_bp r0" by blast
  have 3: "to_b2k (Some 130) = Some (2601/20)"
    using t by simp
  from t example_insolation example_numeric
  have 4: "df example_run = sort_values Age_yr_b2k
      (filter notna (window_filter (map add_age_yr_b2k (make_rows example_cols))))"
    by auto
  from t example_main example_numeric_corr
  have 5: "sub example_corr = sort_values Age (filter in_window_bp (make_rows example_cols))"
    and 6: "age_b2k example_corr = map (\<lambda>r. to_b2k (Age r)) (sub example_corr)"
    by auto
  show ?thesis
    using 1 2 3 4 5 6 example_insolation example_main unfolding r0_def by blast
qed










text \<open>
  C5. Both scripts derive the precession index of a row as \<open>ECC * sin(OMEGA * pi / 180)\<close>
  (NaN when ECC or OMEGA is NaN): the series of a run of the insolation script and of a
  run of the correlation script are this function applied to every row of their table,
  and the two derivations are the same function of the ECC and the OMEGA series.
\<close>

theorem precession_index_same_in_both_scripts:
  "precession_corr ecc omega = precession ecc omega \<and>
   (insolation_script iter coerce raw = Inr run \<longrightarrow>
      prec_index run = map (\<lambda>r. row_prec_index (ECC r) (OMEGA r)) (df run)) \<and>
   (main coerce' raw' = Inr crun \<longrightarrow>
      prec_index_c crun = map (\<lambda>r. row_prec_index (ECC r) (OMEGA r)) (sub crun)) \<and>
   row_prec_index (Some e) (Some w) = Some (e * sin (w * pi / 180)) \<and>
   row_prec_index None x = None \<and> row_prec_index y None = None"
proof -
  have i: "insolation_script iter coerce raw = Inr run \<longrightarrow>
      prec_index run = map (\<lambda>r. row_prec_index (ECC r) (OMEGA r)) (df run)"
    using insolation_script_series(2) [of iter coerce raw run]
    by (simp add: precession_rows)
  have m: "main coerce' raw' = Inr crun \<longrightarrow>
      prec_index_c crun = map (\<lambda>r. row_prec_index (ECC r) (OMEGA r)) (sub crun)"
    using main_Inr(4) [of coerce' raw' crun]
    by (simp add: precession_corr_eq precession_rows)
  have r: "row_prec_index (Some e) (Some w) = Some (e * sin (w * pi / 180)) \<and>
   row_prec_index None x = None \<and> row_prec_index y None = None"
    by (simp add: row_prec_index_def spec_prec_index_def split: option.splits)
  show ?thesis
    using precession_corr_eq [of ecc omega] i m r by blast
qed

theorem precession_index_same_in_both_scripts_witness:
  "insolation_script example_iter (\<lambda>x. x) example_raw = Inr example_run \<and>
   prec_index example_run = map (\<lambda>r. row_prec_index (ECC r) (OMEGA r)) (df example_run) \<and>
   prec_index example_run = [Some 0, Some (1/25), Some 0, Some 0] \<and>
   main (\<lambda>x. x) example_raw = Inr example_corr \<and>
   prec_index_c example_corr = map (\<lambda>r. row_prec_index (ECC r) (OMEGA r)) (sub example_corr) \<and>
   prec_index_c example_corr = [Some 0, Some (1/25), None, Some 0, Some 0] \<and>
   row_prec_index (Some (1/25)) (Some 90) = Some (1/25)"
proof -
  note t = precession_index_same_in_both_scripts
    [of _ _ example_iter "\<lambda>x. x" example_raw example_run "\<lambda>x. x" example_raw example_corr
        "1/25" 90]
  from t example_insolation
  have 1: "prec_index example_run = map (\<lambda>r. row_prec_index (ECC r) (OMEGA r)) (df example_run)"
    by blast
  from t example_main
  have 2: "prec_index_c example_corr =
             map (\<lambda>r. row_prec_index (ECC r) (OMEGA r)) (sub example_corr)"
    by blast
  from t have "row_prec_index (Some (1/25)) (Some 90) = Some (1/25 * sin (90 * pi / 180))"
    by blast
  then have 3: "row_prec_index (Some (1/25)) (Some 90) = Some (1/25)"
    by simp
  have 4: "prec_index example_run = [Some 0, Some (1/25), Some 0, Some 0]"
    "prec_index_c example_corr = [Some 0, Some (1/25), None, Some 0, Some 0]"
    by (simp_all add: example_run_def example_corr_def)
  show ?thesis
    using example_insolation example_main 1 2 3 4 by simp
qed

text \<open>
  C6. A run of the insolation script that reaches its end has written exactly the two
  files \<open>insolation_vs_age_orbital_extrema.jpg\<close> and \<open>.svg\<close>; a run of the correlation
  script has drawn three figures and written exactly three such pairs, each figure
  saved under its base name as \<open>.jpg\<close> and as \<open>.svg\<close> by \<open>export_figure\<close>.
\<close>

theorem figures_saved_as_jpg_and_svg:
  "(insolation_script iter coerce raw = Inr run \<longrightarrow>
      saved run = [''insolation_vs_age_orbital_extrema.jpg'',
                   ''insolation_vs_age_orbital_extrema.svg'']) \<and>
   (main coerce' raw' = Inr crun \<longrightarrow>
      length (figures (plots crun)) = 3 \<and>
      files (plots crun) =
        [''corr_insolation_vs_ecc.jpg'', ''corr_insolation_vs_ecc.svg'',
         ''corr_insolation_vs_obliquity.jpg'', ''corr_insolation_vs_obliquity.svg'',
         ''corr_insolation_vs_precession_index.jpg'',
         ''corr_insolation_vs_precession_index.svg'']) \<and>
   files (export_figure base st) = files st @ [base @ ''.jpg'', base @ ''.svg''] \<and>
   figures (export_figure base st) = figures st \<and>
   files (scatter_plot x y c base st) = files st @ [base @ ''.jpg'', base @ ''.svg''] \<and>
   figures (scatter_plot x y c base st) = figures st @ [\<lparr>fig_x = x, fig_y = y, fig_c = c\<rparr>]"
proof -
  have i: "insolation_script iter coerce raw = Inr run \<longrightarrow>
      saved run = [''insolation_vs_age_orbital_extrema.jpg'',
                   ''insolation_vs_age_orbital_extrema.svg'']"
    using insolation_script_series(3) [of iter coerce raw run]
    by (simp add: out_base_def)
  have m: "main coerce' raw' = Inr crun \<longrightarrow>
      length (figures (plots crun)) = 3 \<and>
      files (plots crun) =
        [''corr_insolation_vs_ecc.jpg'', ''corr_insolation_vs_ecc.svg'',
         ''corr_insolation_vs_obliquity.jpg'', ''corr_insolation_vs_obliquity.svg'',
         ''corr_insolation_vs_precession_index.jpg'',
         ''corr_insolation_vs_precession_index.svg'']"
    using main_Inr(5,6) [of coerce' raw' crun] by simp
  have e: "files (export_figure base st) = files st @ [base @ ''.jpg'', base @ ''.svg''] \<and>
   figures (export_figure base st) = figures st \<and>
   files (scatter_plot x y c base st) = files st @ [base @ ''.jpg'', base @ ''.svg''] \<and>
   figures (scatter_plot x y c base st) = figures st @ [\<lparr>fig_x = x, fig_y = y, fig_c = c\<rparr>]"
    by (simp add: export_figure_def scatter_plot_def)
  show ?thesis
    using i m e by blast
qed

theorem figures_saved_as_jpg_and_svg_witness:
  "insolation_script example_iter (\<lambda>x. x) example_raw = Inr example_run \<and>
   saved example_run = [''insolation_vs_age_orbital_extrema.jpg'',
                        ''insolation_vs_age_orbital_extrema.svg''] \<and>
   main (\<lambda>x. x) example_raw = Inr example_corr \<and>
   length (figures (plots example_corr)) = 3 \<and>
   files (plots example_corr) =
        [''corr_insolation_vs_ecc.jpg'', ''corr_insolation_vs_ecc.svg'',
         ''corr_insolation_vs_obliquity.jpg'', ''corr_insolation_vs_obliquity.svg'',
         ''corr_insolation_vs_precession_index.jpg'',
         ''corr_insolation_vs_precession_index.svg'']"
  using figures_saved_as_jpg_and_svg
    [of example_iter "\<lambda>x. x" example_raw example_run "\<lambda>x. x" example_raw example_corr]
    example_insolation example_main
  by blast

text \<open>
  C8. In both scripts the obliquity series is the raw OBL column of the table, every
  value divided by 1000 if some value of the column exceeds 100 (that is, if its maximum
  does, NaN skipped), and the column unchanged otherwise; so the series is one of the
  two, never a mixture. The two scripts scale alike.
\<close>

theorem obliquity_rescaled_as_a_whole:
  "scale_obl obl_raw =
     (if \<exists>v. Some v \<in> set obl_raw \<and> 100 < v
      then map (map_option (\<lambda>v. v / 1000)) obl_raw else obl_raw) \<and>
   (gt_const (series_max obl_raw) 100 \<longleftrightarrow> (\<exists>v. Some v \<in> set obl_raw \<and> 100 < v)) \<and>
   (series_max obl_raw = Some m \<longrightarrow>
      Some m \<in> set obl_raw \<and> (\<forall>v. Some v \<in> set obl_raw \<longrightarrow> v \<le> m)) \<and>
   (series_max obl_raw = None \<longleftrightarrow> (\<forall>v. Some v \<notin> set obl_raw)) \<and>
   scale_obl_corr obl_raw = scale_obl obl_raw \<and>
   (scale_obl obl_raw = obl_raw \<or>
    scale_obl obl_raw = map (map_option (\<lambda>v. v / 1000)) obl_raw) \<and>
   (insolation_script iter coerce raw = Inr run \<longrightarrow> obl run = scale_obl (map OBL (df run))) \<and>
   (main coerce' raw' = Inr crun \<longrightarrow> obl_c crun = scale_obl_corr (map OBL (sub crun)))"
proof -
  have s: "series_max obl_raw = Some m \<longrightarrow>
      Some m \<in> set obl_raw \<and> (\<forall>v. Some v \<in> set obl_raw \<longrightarrow> v \<le> m)"
    using series_max_Some [of obl_raw m] by blast
  have d: "scale_obl obl_raw = obl_raw \<or>
    scale_obl obl_raw = map (map_option (\<lambda>v. v / 1000)) obl_raw"
    by (simp add: scale_obl_def)
  show ?thesis
    using scale_obl_eq [of obl_raw] gt_series_max [of obl_raw 100] s
      series_max_None [of obl_raw] scale_obl_corr_eq [of obl_raw] d
      insolation_script_series(1) [of iter coerce raw run] main_Inr(3) [of coerce' raw' crun]
    by blast
qed

theorem obliquity_rescaled_as_a_whole_witness:
  "scale_obl [Some 23500, Some 22000, Some 23000, Some 24000] =
     [Some (47/2), Some 22, Some 23, Some 24] \<and>
   scale_obl [Some (47/2), None, Some 24] = [Some (47/2), None, Some 24] \<and>
   insolation_script example_iter (\<lambda>x. x) example_raw = Inr example_run \<and>
   obl example_run = scale_obl (map OBL (df example_run)) \<and>
   main (\<lambda>x. x) example_raw = Inr example_corr \<and>
   obl_c example_corr = scale_obl_corr (map OBL (sub example_corr))"
proof -
  note t = obliquity_rescaled_as_a_whole
    [of _ _ example_iter "\<lambda>x. x" example_raw example_run "\<lambda>x. x" example_raw example_corr]
  have "\<exists>v. Some v \<in> set [Some 23500, Some 22000, Some 23000, Some (24000::real)] \<and> 100 < v"
    by (rule exI [of _ 23500]) simp
  with t [of "[Some 23500, Some 22000, Some 23000, Some 24000]"]
  have 1: "scale_obl [Some 23500, Some 22000, Some 23000, Some 24000] =
     [Some (47/2), Some 22, Some 23, Some 24]"
    by simp
  have "\<not> (\<exists>v. Some v \<in> set [Some (47/2), None, Some (24::real)] \<and> 100 < v)"
    by auto
  with t [of "[Some (47/2), None, Some 24]"]
  have 2: "scale_obl [Some (47/2), None, Some 24] = [Some (47/2), None, Some 24]"
    by simp
  from t [of "[]"] example_insolation example_main
  have 3: "obl example_run = scale_obl (map OBL (df example_run))"
    "obl_c example_corr = scale_obl_corr (map OBL (sub example_corr))"
    by blast+
  show ?thesis
    using 1 2 3 example_insolation example_main by blast
qed

text \<open>
  C9. After the transform stage the table of the insolation script is sorted in
  ascending order of the converted age, every converted age is a number between 128000
  and 220000, no row has NaN in Age_yr_b2k, EXI, ECC, OBL or OMEGA, and its rows are
  the rows of the file that pass the window filter and have these five cells, each
  as often as in the file. The table of the correlation script is sorted in ascending
  order of the age, every age lies between the window bounds, and the b2k ages drawn
  are sorted and lie between 115 and 250. The later stages read the table and hand it
  on unchanged: the table of a finished run is the transformed table.
\<close>

theorem table_invariant_after_transform:
  "(\<exists>ages. map Age_yr_b2k (transform rows) = map Some ages \<and> sorted ages \<and>
      (\<forall>a\<in>set ages. 128000 \<le> a \<and> a \<le> 220000)) \<and>
   (\<forall>r\<in>set (transform rows).
      Age_yr_b2k r \<noteq> None \<and> EXI r \<noteq> None \<and> ECC r \<noteq> None \<and> OBL r \<noteq> None \<and> OMEGA r \<noteq> None) \<and>
   mset (transform rows) =
     filter_mset (\<lambda>r. in_window r \<and> notna r) (mset (map add_age_yr_b2k rows)) \<and>
   (analyse t = Inr run' \<longrightarrow> df run' = t) \<and>
   (insolation_script iter coerce raw = Inr run \<longrightarrow>
      (\<exists>cols. to_numeric_all coerce (robust_read_table raw) required = Inr cols \<and>
         df run = transform (make_rows cols)) \<and>
      (\<exists>ages. map Age_yr_b2k (df run) = map Some ages \<and> sorted ages \<and>
         (\<forall>a\<in>set ages. 128000 \<le> a \<and> a \<le> 220000)) \<and>
      (\<forall>r\<in>set (df run).
         Age_yr_b2k r \<noteq> None \<and> EXI r \<noteq> None \<and> ECC r \<noteq> None \<and> OBL r \<noteq> None \<and>
         OMEGA r \<noteq> None)) \<and>
   (main coerce' raw' = Inr crun \<longrightarrow>
      (\<exists>ages. map Age (sub crun) = map Some ages \<and> sorted ages \<and>
         (\<forall>a\<in>set ages. age_min_bp \<le> a \<and> a \<le> age_max_bp) \<and>
         age_b2k crun = map (\<lambda>a. Some (a + 5/100)) ages \<and>
         sorted (map (\<lambda>a. a + 5/100) ages) \<and>
         (\<forall>a\<in>set ages. 115 \<le> a + 5/100 \<and> a + 5/100 \<le> 250)))"
proof -
  have n: "\<forall>r\<in>set (transform rows).
      Age_yr_b2k r \<noteq> None \<and> EXI r \<noteq> None \<and> ECC r \<noteq> None \<and> OBL r \<noteq> None \<and> OMEGA r \<noteq> None" for rows
    using transform_notna [of rows] by blast
  have a: "analyse t = Inr run' \<longrightarrow> df run' = t"
    using analyse_Inr(1) [of t run'] by blast
  have i: "insolation_script iter coerce raw = Inr run \<longrightarrow>
      (\<exists>cols. to_numeric_all coerce (robust_read_table raw) required = Inr cols \<and>
         df run = transform (make_rows cols)) \<and>
      (\<exists>ages. map Age_yr_b2k (df run) = map Some ages \<and> sorted ages \<and>
         (\<forall>a\<in>set ages. 128000 \<le> a \<and> a \<le> 220000)) \<and>
      (\<forall>r\<in>set (df run).
         Age_yr_b2k r \<noteq> None \<and> EXI r \<noteq> None \<and> ECC r \<noteq> None \<and> OBL r \<noteq> None \<and>
         OMEGA r \<noteq> None)"
  proof
    assume "insolation_script iter coerce raw = Inr run"
    from insolation_script_table [OF this] obtain cols where
      c: "to_numeric_all coerce (robust_read_table raw) required = Inr cols"
         "df run = transform (make_rows cols)"
      unfolding required_def by blast
    show "(\<exists>cols. to_numeric_all coerce (robust_read_table raw) required = Inr cols \<and>
         df run = transform (make_rows cols)) \<and>
      (\<exists>ages. map Age_yr_b2k (df run) = map Some ages \<and> sorted ages \<and>
         (\<forall>a\<in>set ages. 128000 \<le> a \<and> a \<le> 220000)) \<and>
      (\<forall>r\<in>set (df run).
         Age_yr_b2k r \<noteq> None \<and> EXI r \<noteq> None \<and> ECC r \<noteq> None \<and> OBL r \<noteq> None \<and>
         OMEGA r \<noteq> None)"
      using c transform_invariant [of "make_rows cols"] n [of "make_rows cols"]
      unfolding c(2) by blast
  qed
  have m: "main coerce' raw' = Inr crun \<longrightarrow>
      (\<exists>ages. map Age (sub crun) = map Some ages \<and> sorted ages \<and>
         (\<forall>a\<in>set ages. age_min_bp \<le> a \<and> a \<le> age_max_bp) \<and>
         age_b2k crun = map (\<lambda>a. Some (a + 5/100)) ages \<and>
         sorted (map (\<lambda>a. a + 5/100) ages) \<and>
         (\<forall>a\<in>set ages. 115 \<le> a + 5/100 \<and> a + 5/100 \<le> 250))"
  proof
    assume r: "main coerce' raw' = Inr crun"
    from main_Inr(1) [OF r] obtain cols where s: "sub crun = subset_corr (make_rows cols)"
      by blast
    from subset_corr_invariant [of "make_rows cols"] obtain ages where
      g: "map Age (sub crun) = map Some ages" "sorted ages"
         "\<forall>a\<in>set ages. age_min_bp \<le> a \<and> a \<le> age_max_bp"
      unfolding s by blast
    have "age_b2k crun = map to_b2k (map Age (sub crun))"
      using main_Inr(2) [OF r] by (simp add: comp_def)
    then have b: "age_b2k crun = map (\<lambda>a. Some (a + 5/100)) ages"
      unfolding g(1) by (simp add: to_b2k_eq comp_def)
    have w: "\<forall>a\<in>set ages. 115 \<le> a + 5/100 \<and> a + 5/100 \<le> 250"
      using g(3) b2k_window by blast
    show "\<exists>ages. map Age (sub crun) = map Some ages \<and> sorted ages \<and>
         (\<forall>a\<in>set ages. age_min_bp \<le> a \<and> a \<le> age_max_bp) \<and>
         age_b2k crun = map (\<lambda>a. Some (a + 5/100)) ages \<and>
         sorted (map (\<lambda>a. a + 5/100) ages) \<and>
         (\<forall>a\<in>set ages. 115 \<le> a + 5/100 \<and> a + 5/100 \<le> 250)"
      using g b w sorted_shift [OF g(2), of "5/100"] by blast
  qed
  show ?thesis
    using transform_invariant [of rows] n [of rows] transform_mset [of rows] a i m
    by blast
qed

theorem table_invariant_after_transform_witness:
  "insolation_script example_iter (\<lambda>x. x) example_raw = Inr example_run \<and>
   map Age_yr_b2k (df example_run) = map Some [130050, 140050, 150050, 160050] \<and>
   sorted [130050, 140050, 150050, 160050 :: real] \<and>
   df example_run = transform (make_rows example_cols) \<and>
   analyse (df example_run) = Inr example_run \<and>
   main (\<lambda>x. x) example_raw = Inr example_corr \<and>
   map Age (sub example_corr) = map Some [130, 140, 145, 150, 160] \<and>
   age_b2k example_corr = map (\<lambda>a. Some (a + 5/100)) [130, 140, 145, 150, 160]"
proof -
  note t = table_invariant_after_transform
    [of "make_rows example_cols" "df example_run" example_run example_iter "\<lambda>x. x" example_raw
        example_run "\<lambda>x. x" example_raw example_corr]
  have d: "df example_run = example_table"
    by (simp add: example_run_def)
  have 1: "map Age_yr_b2k (df example_run) = map Some [130050, 140050, 150050, 160050]"
    by (simp add: d example_table_def)
  from t example_insolation example_numeric
  have 2: "df example_run = transform (make_rows example_cols)"
    by (auto simp: required_def)
  from t example_main obtain ages where
    g: "map Age (sub example_corr) = map Some ages"
       "age_b2k example_corr = map (\<lambda>a. Some (a + 5/100)) ages"
    by blast
  have 3: "map Age (sub example_corr) = map Some [130, 140, 145, 150, 160]"
    by (simp add: example_corr_def example_sub_def)
  with g(1) have "map Some ages = map Some [130, 140, 145, 150, 160]"
    by simp
  then have "ages = [130, 140, 145, 150, 160]"
    by (rule map_injective) simp
  with g(2) have 4: "age_b2k example_corr = map (\<lambda>a. Some (a + 5/100)) [130, 140, 145, 150, 160]"
    by simp
  have 5: "analyse (df example_run) = Inr example_run"
    unfolding d by (rule example_analyse)
  have 6: "sorted [130050, 140050, 150050, 160050 :: real]"
    by simp
  show ?thesis
    using example_insolation 1 6 2 5 example_main 3 4 by blast
qed

end
